theory Spec2Isabelle
  imports Complex_Main
begin

section \<open>Python strings\<close>

text \<open>
  A Python \<open>str\<close> is modelled as a \<open>string\<close>; a \<open>char\<close> stands for a code point
  below 256. The functions below are the \<open>str\<close> methods the program calls, restricted
  to that range.
\<close>

text \<open>\<open>c.isspace()\<close>: the code points below 256 that Python counts as whitespace.\<close>

definition isspace :: "char \<Rightarrow> bool" where
  "isspace c = (of_char c \<in> {9::nat, 10, 11, 12, 13, 28, 29, 30, 31, 32, 133, 160})"

text \<open>\<open>s.strip()\<close>: drop the leading and the trailing whitespace.\<close>

definition strip :: "string \<Rightarrow> string" where
  "strip s = rev (dropWhile isspace (rev (dropWhile isspace s)))"

text \<open>\<open>s.lower()\<close>: A-Z and the upper-case letters of Latin-1 move up by 32.\<close>

definition lower_char :: "char \<Rightarrow> char" where
  "lower_char c =
     (let n = (of_char c :: nat)
      in if (65 \<le> n \<and> n \<le> 90) \<or> (192 \<le> n \<and> n \<le> 222 \<and> n \<noteq> 215)
         then char_of (n + 32) else c)"

definition lower :: "string \<Rightarrow> string" where
  "lower s = map lower_char s"

text \<open>\<open>s.startswith(p)\<close>.\<close>

fun startswith :: "string \<Rightarrow> string \<Rightarrow> bool" where
  "startswith s [] = True"
| "startswith [] (p # ps) = False"
| "startswith (c # cs) (p # ps) = (c = p \<and> startswith cs ps)"

text \<open>\<open>p in s\<close> for two strings: \<open>p\<close> occurs in \<open>s\<close> as a contiguous piece.\<close>

fun contains :: "string \<Rightarrow> string \<Rightarrow> bool" where
  "contains [] p = (p = [])"
| "contains (c # cs) p = (startswith (c # cs) p \<or> contains cs p)"

text \<open>\<open>s.split(c)\<close> for a one-character separator: never an empty list.\<close>

fun split :: "char \<Rightarrow> string \<Rightarrow> string list" where
  "split c [] = [[]]"
| "split c (x # xs) =
     (if x = c then [] # split c xs
      else (case split c xs of [] \<Rightarrow> [[x]] | p # ps \<Rightarrow> (x # p) # ps))"

text \<open>\<open>sep.join(parts)\<close>.\<close>

fun join :: "string \<Rightarrow> string list \<Rightarrow> string" where
  "join sep [] = []"
| "join sep [p] = p"
| "join sep (p # q # ps) = p @ sep @ join sep (q # ps)"

text \<open>The separators the program names: \<open>/\<close> and the backslash.\<close>

abbreviation slash :: char where "slash \<equiv> CHR ''/''"
abbreviation backslash :: char where "backslash \<equiv> CHR 0x5C"
abbreviation newline :: char where "newline \<equiv> CHR 0x0A"

section \<open>posixpath and pathlib (POSIX flavour)\<close>

text \<open>\<open>os.path.isabs\<close>.\<close>

definition isabs :: "string \<Rightarrow> bool" where
  "isabs s = startswith s [slash]"

text \<open>\<open>os.path.join(a, b)\<close> for two arguments.\<close>

definition os_path_join :: "string \<Rightarrow> string \<Rightarrow> string" where
  "os_path_join a b =
     (if startswith b [slash] then b
      else if a = [] \<or> last a = slash then a @ b
      else a @ [slash] @ b)"

text \<open>
  A \<open>PurePosixPath\<close>: its root (empty, \<open>/\<close> or \<open>//\<close>) and its components. Parsing
  keeps exactly two leading slashes as the root \<open>//\<close>, and drops empty components and
  the component \<open>.\<close>.
\<close>

datatype pure_path = PurePath (root: string) (parts: "string list")

definition splitroot :: "string \<Rightarrow> string \<times> string" where
  "splitroot s =
     (if take 1 s \<noteq> [slash] then ([], s)
      else if take 1 (drop 1 s) \<noteq> [slash] then ([slash], drop 1 s)
      else if take 1 (drop 2 s) = [slash] then ([slash], drop 1 s)
      else ([slash, slash], drop 2 s))"

definition Path :: "string \<Rightarrow> pure_path" where
  "Path s = (case splitroot s of (r, rel) \<Rightarrow>
     PurePath r (filter (\<lambda>x. x \<noteq> [] \<and> x \<noteq> ''.'') (split slash rel)))"

text \<open>\<open>str(p)\<close>.\<close>

definition path_str :: "pure_path \<Rightarrow> string" where
  "path_str p =
     (if root p = [] \<and> parts p = [] then ''.''
      else root p @ join [slash] (parts p))"

text \<open>\<open>p / s\<close>: the segments are joined by \<open>os.path.join\<close> and parsed again.\<close>

definition joinpath :: "pure_path \<Rightarrow> string \<Rightarrow> pure_path" where
  "joinpath p s = Path (os_path_join (path_str p) s)"

text \<open>\<open>p.parent\<close>, \<open>p.name\<close>, \<open>p.suffix\<close> and \<open>p.stem\<close>.\<close>

definition parent :: "pure_path \<Rightarrow> pure_path" where
  "parent p = (if parts p = [] then p else PurePath (root p) (butlast (parts p)))"

definition name :: "pure_path \<Rightarrow> string" where
  "name p = (if parts p = [] then [] else last (parts p))"

text \<open>\<open>s.rfind('.')\<close>: the index of the last dot, if there is one.\<close>

fun rfind_dot :: "string \<Rightarrow> nat option" where
  "rfind_dot [] = None"
| "rfind_dot (c # cs) =
     (case rfind_dot cs of
        Some i \<Rightarrow> Some (Suc i)
      | None \<Rightarrow> if c = CHR ''.'' then Some 0 else None)"

definition suffix_of :: "string \<Rightarrow> string" where
  "suffix_of n =
     (case rfind_dot n of
        Some i \<Rightarrow> if 0 < i \<and> i + 1 < length n then drop i n else []
      | None \<Rightarrow> [])"

definition stem_of :: "string \<Rightarrow> string" where
  "stem_of n =
     (case rfind_dot n of
        Some i \<Rightarrow> if 0 < i \<and> i + 1 < length n then take i n else n
      | None \<Rightarrow> n)"

definition suffix :: "pure_path \<Rightarrow> string" where
  "suffix p = suffix_of (name p)"

definition stem :: "pure_path \<Rightarrow> string" where
  "stem p = stem_of (name p)"

text \<open>What parsing yields: one of the three roots, and components that are not empty,
  not \<open>.\<close> and have no slash.\<close>

definition is_part :: "string \<Rightarrow> bool" where
  "is_part x = (x \<noteq> [] \<and> x \<noteq> ''.'' \<and> slash \<notin> set x)"

definition wf_path :: "pure_path \<Rightarrow> bool" where
  "wf_path p = (root p \<in> {[], [slash], [slash, slash]} \<and> list_all is_part (parts p))"

section \<open>The host\<close>

text \<open>
  What the program reads from its environment: the home directory, the working
  directory, and the kernel's answer, for an absolute path string, to whether it names
  an existing entry of the file system. A relative path is looked up under the working
  directory, as the kernel does.
\<close>

type_synonym fs = "string \<Rightarrow> bool"

record host =
  home :: string
  cwd :: string

text \<open>\<open>p.absolute()\<close>.\<close>

definition absolute :: "host \<Rightarrow> pure_path \<Rightarrow> pure_path" where
  "absolute h p = (if root p \<noteq> [] then p else Path (os_path_join (cwd h) (path_str p)))"

text \<open>
  \<open>p.exists()\<close> hands \<open>str(p)\<close> to the kernel; the model looks up the absolute
  \<open>pathlib\<close> form of the path.
\<close>

definition path_exists :: "host \<Rightarrow> fs \<Rightarrow> pure_path \<Rightarrow> bool" where
  "path_exists h f p = f (path_str (absolute h p))"

text \<open>
  \<open>os.path.exists(s)\<close> hands the string itself to the kernel, with nothing removed: the
  empty string names nothing, and a string that is not absolute is taken under the
  working directory as it is written. So a trailing slash or a trailing \<open>/.\<close> is part
  of what the kernel is asked (it answers no when what comes before is a regular file).
\<close>

definition os_path_exists :: "host \<Rightarrow> fs \<Rightarrow> string \<Rightarrow> bool" where
  "os_path_exists h f s =
     (s \<noteq> [] \<and> f (if isabs s then s else os_path_join (cwd h) s))"

section \<open>PathUtils\<close>

text \<open>\<open>get_common_folders\<close>: a dict, kept as an association list in insertion order.\<close>

definition get_common_folders :: "host \<Rightarrow> (string \<times> pure_path) list" where
  "get_common_folders h =
     (let user_home = Path (home h) in
      [(''desktop'', joinpath user_home ''Desktop''),
       (''downloads'', joinpath user_home ''Downloads''),
       (''documents'', joinpath user_home ''Documents''),
       (''videos'', joinpath user_home ''Videos''),
       (''music'', joinpath user_home ''Music''),
       (''pictures'', joinpath user_home ''Pictures''),
       (''onedrive_desktop'', joinpath (joinpath user_home ''OneDrive'') ''Desktop'')])"

text \<open>The first loop of \<open>resolve_path\<close>: the shortcut prefixes.\<close>

fun shortcut_loop :: "host \<Rightarrow> fs \<Rightarrow> string \<Rightarrow> (string \<times> pure_path) list \<Rightarrow> string option" where
  "shortcut_loop h f path_input [] = None"
| "shortcut_loop h f path_input ((shortcut, folder_path) # items) =
     (if startswith path_input (shortcut @ [slash]) \<or>
         startswith path_input (shortcut @ [backslash])
      then (let relative_part = drop (length shortcut + 1) path_input;
                resolved = joinpath folder_path relative_part
            in if path_exists h f resolved then Some (path_str resolved)
               else shortcut_loop h f path_input items)
      else shortcut_loop h f path_input items)"

text \<open>The second loop: a bare file name is looked for in every folder.\<close>

fun filename_loop :: "host \<Rightarrow> fs \<Rightarrow> string \<Rightarrow> pure_path list \<Rightarrow> string option" where
  "filename_loop h f path_input [] = None"
| "filename_loop h f path_input (folder_path # folders) =
     (let potential_path = joinpath folder_path path_input
      in if path_exists h f potential_path then Some (path_str potential_path)
         else filename_loop h f path_input folders)"

definition resolve_path :: "host \<Rightarrow> fs \<Rightarrow> string \<Rightarrow> string" where
  "resolve_path h f path_input0 =
     (let path_input = strip path_input0 in
      if isabs path_input then path_input
      else
        let common_folders = get_common_folders h in
        case shortcut_loop h f path_input common_folders of
          Some r \<Rightarrow> r
        | None \<Rightarrow>
            (case (if slash \<notin> set path_input \<and> backslash \<notin> set path_input
                   then filename_loop h f path_input (map snd common_folders)
                   else None) of
               Some r \<Rightarrow> r
             | None \<Rightarrow>
                 (let current_dir_path = Path path_input
                  in if path_exists h f current_dir_path
                     then path_str (absolute h current_dir_path)
                     else path_input)))"

section \<open>Library calls, errors and the state\<close>

text \<open>
  The media library, the speech model and the operating system are black boxes: what
  they return is a parameter of the model (the record \<open>lib\<close> below). An exception
  raised inside one of these calls is a \<open>lib_exc\<close> carrying its \<open>str(e)\<close>; all of them
  are taken to be subclasses of \<open>Exception\<close>, so that \<open>except Exception\<close> catches them.
\<close>

datatype lib_exc = LibError (str: string)

text \<open>
  What a function of the program raises: the \<open>FileNotFoundError\<close> of a failed
  existence check, the \<open>Exception\<close> built by an \<open>except\<close> block (its message, and
  the exception that was being handled), or a library exception that leaves a call made
  outside every \<open>try\<close>.
\<close>

datatype error =
    FileNotFoundError string
  | Exception string lib_exc
  | Propagated lib_exc

fun error_str :: "error \<Rightarrow> string" where
  "error_str (FileNotFoundError m) = m"
| "error_str (Exception m c) = m"
| "error_str (Propagated e) = str e"

text \<open>A \<open>VideoFileClip\<close>: the file it decodes, and whether its \<open>audio\<close> is not \<open>None\<close>.\<close>

datatype clip = Clip (clip_file: string) (has_audio: bool)

text \<open>A segment and a result of the speech model; \<open>'f\<close> is the type of Python floats.\<close>

record 'f segment =
  seg_start :: 'f
  seg_end :: 'f
  seg_text :: string

record metadata =
  meta_audio_file :: string
  meta_model_used :: string
  meta_transcription_date :: string
  meta_detected_language :: string

record 'f transcription =
  full_text :: string
  segments :: "'f segment list"
  language :: "string option"
  metadata :: "metadata option"

text \<open>
  The library calls and the float arithmetic. A call that changes the file system
  returns the new one. \<open>to_int\<close> is \<open>int(x)\<close> on a finite float.
\<close>

record 'f lib =
  VideoFileClip :: "fs \<Rightarrow> string \<Rightarrow> lib_exc + clip"
  write_audiofile :: "fs \<Rightarrow> clip \<Rightarrow> string \<Rightarrow> lib_exc option \<times> fs"
  load_model :: "string \<Rightarrow> lib_exc option"
  transcribe :: "fs \<Rightarrow> string \<Rightarrow> string option \<Rightarrow> lib_exc + 'f transcription"
  now_isoformat :: string
  json_dumps :: "'f transcription \<Rightarrow> string"
  makedirs :: "fs \<Rightarrow> string \<Rightarrow> lib_exc + fs"
  listdir :: "fs \<Rightarrow> string \<Rightarrow> lib_exc + string list"
  open_w :: "fs \<Rightarrow> string \<Rightarrow> lib_exc + fs"
  floordiv :: "'f \<Rightarrow> 'f \<Rightarrow> 'f"
  fmod :: "'f \<Rightarrow> 'f \<Rightarrow> 'f"
  fmul :: "'f \<Rightarrow> 'f \<Rightarrow> 'f"
  float_of :: "int \<Rightarrow> 'f"
  to_int :: "'f \<Rightarrow> int"

text \<open>The library calls made and the console lines the properties speak of.\<close>

datatype event =
    Call_VideoFileClip string
  | Call_write_audiofile string string
  | Call_close string
  | Call_load_model string
  | Call_transcribe string "string option"
  | Call_makedirs string
  | Call_listdir string
  | Call_open_w string
  | Print_saved string
  | Print_failed string string

text \<open>
  The state: the file system, the text files written, the clips opened and not closed,
  the \<open>AudioTranscriber\<close> object (\<open>model_size\<close>, and whether \<open>self.model\<close> is set),
  and the trace of events.
\<close>

record state =
  fsys :: fs
  files :: "string \<rightharpoonup> string"
  open_clips :: "clip list"
  model_size :: string
  model_loaded :: bool
  trace :: "event list"

definition emit :: "event \<Rightarrow> state \<Rightarrow> state" where
  "emit e st = st\<lparr>trace := trace st @ [e]\<rparr>"

section \<open>VideoConverter.extract_audio\<close>

text \<open>The \<open>str\<close> of the \<open>AttributeError\<close> raised by \<open>video.audio.write_audiofile\<close>
  when \<open>video.audio\<close> is \<open>None\<close>.\<close>

definition NoneType_has_no_write_audiofile :: string where
  "NoneType_has_no_write_audiofile =
     CHR 0x27 # ''NoneType' object has no attribute 'write_audiofile'' @ [CHR 0x27]"

definition extract_audio ::
  "host \<Rightarrow> 'f lib \<Rightarrow> state \<Rightarrow> string \<Rightarrow> string option \<Rightarrow> string \<Rightarrow> (error + string) \<times> state" where
  "extract_audio h l st video_path audio_path0 audio_format =
     (let resolved_video_path = resolve_path h (fsys st) video_path in
      if \<not> os_path_exists h (fsys st) resolved_video_path
      then (Inl (FileNotFoundError (''Video file not found: '' @ video_path @
                   '' (resolved to: '' @ resolved_video_path @ '')'')), st)
      else
        let audio_path =
              (case audio_path0 of
                 None \<Rightarrow>
                   (let video_file = Path resolved_video_path
                    in path_str (joinpath (parent video_file)
                                  (stem video_file @ ''.'' @ audio_format)))
               | Some a \<Rightarrow> resolve_path h (fsys st) a);
            st1 = emit (Call_VideoFileClip resolved_video_path) st
        in case VideoFileClip l (fsys st1) resolved_video_path of
             Inl e \<Rightarrow> (Inl (Exception (''Error during audio extraction: '' @ str e) e), st1)
           | Inr video \<Rightarrow>
               (let st2 = st1\<lparr>open_clips := video # open_clips st1\<rparr> in
                if \<not> has_audio video
                then (let e = LibError NoneType_has_no_write_audiofile
                      in (Inl (Exception (''Error during audio extraction: '' @ str e) e), st2))
                else
                  let st3 = emit (Call_write_audiofile (clip_file video) audio_path) st2
                  in case write_audiofile l (fsys st3) video audio_path of
                       (Some e, f') \<Rightarrow>
                         (Inl (Exception (''Error during audio extraction: '' @ str e) e),
                          st3\<lparr>fsys := f'\<rparr>)
                     | (None, f') \<Rightarrow>
                         (Inr audio_path,
                          emit (Call_close (clip_file video))
                            (st3\<lparr>fsys := f', open_clips := remove1 video (open_clips st3)\<rparr>))))"

section \<open>AudioTranscriber\<close>

subsection \<open>Formatting integers\<close>

text \<open>The decimal digits of a natural number, \<open>str(i)\<close>, and the format \<open>{x:0wd}\<close>
  (zeros on the left up to the width \<open>w\<close>; a minus sign counts in the width).\<close>

fun digits :: "nat \<Rightarrow> string" where
  "digits n =
     (if n < 10 then [char_of (48 + n)]
      else digits (n div 10) @ [char_of (48 + n mod 10)])"

declare digits.simps [simp del]

definition str_int :: "int \<Rightarrow> string" where
  "str_int i = (if i < 0 then ''-'' @ digits (nat (- i)) else digits (nat i))"

definition zfill :: "nat \<Rightarrow> string \<Rightarrow> string" where
  "zfill w s = replicate (w - length s) CHR ''0'' @ s"

definition format_0d :: "nat \<Rightarrow> int \<Rightarrow> string" where
  "format_0d w x =
     (if x < 0 then ''-'' @ zfill (w - 1) (digits (nat (- x)))
      else zfill w (digits (nat x)))"

subsection \<open>Time stamps\<close>

definition seconds_to_srt_time :: "'f lib \<Rightarrow> 'f \<Rightarrow> string" where
  "seconds_to_srt_time l seconds =
     (let hours = to_int l (floordiv l seconds (float_of l 3600));
          minutes = to_int l (floordiv l (fmod l seconds (float_of l 3600)) (float_of l 60));
          secs = to_int l (fmod l seconds (float_of l 60));
          millisecs = to_int l (fmul l (fmod l seconds (float_of l 1)) (float_of l 1000))
      in format_0d 2 hours @ '':'' @ format_0d 2 minutes @ '':'' @ format_0d 2 secs
           @ '','' @ format_0d 3 millisecs)"

definition seconds_to_vtt_time :: "'f lib \<Rightarrow> 'f \<Rightarrow> string" where
  "seconds_to_vtt_time l seconds =
     (let hours = to_int l (floordiv l seconds (float_of l 3600));
          minutes = to_int l (floordiv l (fmod l seconds (float_of l 3600)) (float_of l 60));
          secs = to_int l (fmod l seconds (float_of l 60));
          millisecs = to_int l (fmul l (fmod l seconds (float_of l 1)) (float_of l 1000))
      in format_0d 2 hours @ '':'' @ format_0d 2 minutes @ '':'' @ format_0d 2 secs
           @ ''.'' @ format_0d 3 millisecs)"

subsection \<open>save_transcription\<close>

text \<open>The two subtitle loops: \<open>buf\<close> is what \<open>f.write\<close> has written so far, and \<open>i\<close>
  the counter of \<open>enumerate(..., 1)\<close>.\<close>

fun write_srt :: "'f lib \<Rightarrow> string \<Rightarrow> int \<Rightarrow> 'f segment list \<Rightarrow> string" where
  "write_srt l buf i [] = buf"
| "write_srt l buf i (segment # rest) =
     (let start_time = seconds_to_srt_time l (seg_start segment);
          end_time = seconds_to_srt_time l (seg_end segment);
          buf1 = buf @ str_int i @ [newline];
          buf2 = buf1 @ start_time @ '' --> '' @ end_time @ [newline];
          buf3 = buf2 @ strip (seg_text segment) @ [newline, newline]
      in write_srt l buf3 (i + 1) rest)"

fun write_vtt :: "'f lib \<Rightarrow> string \<Rightarrow> 'f segment list \<Rightarrow> string" where
  "write_vtt l buf [] = buf"
| "write_vtt l buf (segment # rest) =
     (let start_time = seconds_to_vtt_time l (seg_start segment);
          end_time = seconds_to_vtt_time l (seg_end segment);
          buf1 = buf @ start_time @ '' --> '' @ end_time @ [newline];
          buf2 = buf1 @ strip (seg_text segment) @ [newline, newline]
      in write_vtt l buf2 rest)"

text \<open>The plain text file: the banner, and the whole file.\<close>

definition txt_banner :: string where
  "txt_banner =
     replicate 50 CHR ''='' @ [newline] @ ''AUDIO TRANSCRIPTION'' @ [newline]
       @ replicate 50 CHR ''='' @ [newline, newline]"

definition txt_content :: "'f transcription \<Rightarrow> metadata \<Rightarrow> string" where
  "txt_content result m =
     txt_banner
       @ ''Audio File: '' @ meta_audio_file m @ [newline]
       @ ''Model: '' @ meta_model_used m @ [newline]
       @ ''Language: '' @ meta_detected_language m @ [newline]
       @ ''Date: '' @ meta_transcription_date m @ [newline]
       @ [newline] @ replicate 50 CHR ''-'' @ [newline]
       @ ''TRANSCRIPTION:'' @ [newline]
       @ replicate 50 CHR ''-'' @ [newline, newline]
       @ full_text result
       @ [newline, newline] @ replicate 50 CHR ''='' @ [newline]"

text \<open>\<open>with open(path, "w") as f\<close> followed by the writes of \<open>content\<close>: opening may
  fail; a write to an opened file is taken to succeed.\<close>

definition write_text :: "'f lib \<Rightarrow> state \<Rightarrow> string \<Rightarrow> string \<Rightarrow> lib_exc option \<times> state" where
  "write_text l st path content =
     (let st1 = emit (Call_open_w path) st in
      case open_w l (fsys st1) path of
        Inl e \<Rightarrow> (Some e, st1)
      | Inr f' \<Rightarrow> (None, st1\<lparr>fsys := f', files := (files st1)(path \<mapsto> content)\<rparr>))"

text \<open>The \<open>str\<close> of the \<open>KeyError\<close> raised by \<open>result['metadata']\<close>.\<close>

definition KeyError_metadata :: string where
  "KeyError_metadata = CHR 0x27 # ''metadata'' @ [CHR 0x27]"

text \<open>\<open>output_file.parent.mkdir(parents=True, exist_ok=True)\<close> is the library call
  \<open>makedirs\<close>, made before the \<open>try\<close>.\<close>

definition save_transcription ::
  "'f lib \<Rightarrow> state \<Rightarrow> 'f transcription \<Rightarrow> string \<Rightarrow> string \<Rightarrow> (error + unit) \<times> state" where
  "save_transcription l st result output_path format_type =
     (let output_file = Path output_path;
          dir = path_str (parent output_file);
          st0 = emit (Call_makedirs dir) st
      in case makedirs l (fsys st0) dir of
           Inl e \<Rightarrow> (Inl (Propagated e), st0)
         | Inr f1 \<Rightarrow>
             (let st1 = st0\<lparr>fsys := f1\<rparr>;
                  (failure, st2) =
                    (if lower format_type = ''txt'' then
                       (case metadata result of
                          None \<Rightarrow>
                            (case write_text l st1 output_path txt_banner of
                               (Some e, s) \<Rightarrow> (Some e, s)
                             | (None, s) \<Rightarrow> (Some (LibError KeyError_metadata), s))
                        | Some m \<Rightarrow> write_text l st1 output_path (txt_content result m))
                     else if lower format_type = ''json'' then
                       write_text l st1 output_path (json_dumps l result)
                     else if lower format_type = ''srt'' then
                       write_text l st1 output_path (write_srt l [] 1 (segments result))
                     else if lower format_type = ''vtt'' then
                       write_text l st1 output_path
                         (write_vtt l (''WEBVTT'' @ [newline, newline]) (segments result))
                     else (None, st1))
              in case failure of
                   Some e \<Rightarrow> (Inl (Exception (''Error saving transcription: '' @ str e) e), st2)
                 | None \<Rightarrow> (Inr (), emit (Print_saved output_path) st2)))"

subsection \<open>transcribe_audio\<close>

text \<open>\<open>_load_model\<close>: the model is loaded on the first use only.\<close>

definition load_model_lazy :: "'f lib \<Rightarrow> state \<Rightarrow> lib_exc option \<times> state" where
  "load_model_lazy l st =
     (if model_loaded st then (None, st)
      else (let st1 = emit (Call_load_model (model_size st)) st
            in case load_model l (model_size st) of
                 Some e \<Rightarrow> (Some e, st1)
               | None \<Rightarrow> (None, st1\<lparr>model_loaded := True\<rparr>)))"

definition transcribe_audio ::
  "host \<Rightarrow> 'f lib \<Rightarrow> state \<Rightarrow> string \<Rightarrow> string option \<Rightarrow> string
     \<Rightarrow> (error + 'f transcription) \<times> state" where
  "transcribe_audio h l st audio_path language0 output_format =
     (if \<not> os_path_exists h (fsys st) audio_path
      then (Inl (FileNotFoundError (''Audio file not found: '' @ audio_path)), st)
      else
        case load_model_lazy l st of
          (Some e, st1) \<Rightarrow> (Inl (Propagated e), st1)
        | (None, st1) \<Rightarrow>
            (let hint = (case language0 of None \<Rightarrow> None
                         | Some c \<Rightarrow> if c = [] then None else Some c);
                 st2 = emit (Call_transcribe audio_path hint) st1
             in case transcribe l (fsys st2) audio_path hint of
                  Inl e \<Rightarrow> (Inl (Exception (''Error during transcription: '' @ str e) e), st2)
                | Inr result \<Rightarrow>
                    (Inr (result\<lparr>metadata := Some
                            \<lparr>meta_audio_file = audio_path,
                             meta_model_used = model_size st2,
                             meta_transcription_date = now_isoformat l,
                             meta_detected_language =
                               (case language result of None \<Rightarrow> ''unknown'' | Some g \<Rightarrow> g)\<rparr>\<rparr>),
                     st2)))"

definition transcribe_and_save ::
  "host \<Rightarrow> 'f lib \<Rightarrow> state \<Rightarrow> string \<Rightarrow> string option \<Rightarrow> string option \<Rightarrow> string
     \<Rightarrow> (error + string) \<times> state" where
  "transcribe_and_save h l st audio_path output_path0 language0 output_format =
     (let output_path =
            (case output_path0 of
               None \<Rightarrow>
                 (let audio_file = Path audio_path
                  in path_str (joinpath (parent audio_file)
                                (stem audio_file @ ''_transcription.'' @ output_format)))
             | Some p \<Rightarrow> p)
      in case transcribe_audio h l st audio_path language0 output_format of
           (Inl e, st1) \<Rightarrow> (Inl e, st1)
         | (Inr result, st1) \<Rightarrow>
             (case save_transcription l st1 result output_path output_format of
                (Inl e, st2) \<Rightarrow> (Inl e, st2)
              | (Inr u, st2) \<Rightarrow> (Inr output_path, st2)))"

section \<open>The batch functions\<close>

definition video_extensions :: "string list" where
  "video_extensions = [''.mp4'', ''.avi'', ''.mov'', ''.mkv'', ''.wmv'', ''.flv'', ''.webm'']"

definition audio_extensions :: "string list" where
  "audio_extensions = [''.mp3'', ''.wav'', ''.m4a'', ''.flac'', ''.aac'', ''.ogg'', ''.wma'']"

text \<open>The loop of \<open>batch_convert\<close>: \<open>extracted_files\<close> is the list built so far. The
  \<open>except Exception\<close> branch prints and goes on with the next file.\<close>

fun convert_loop ::
  "host \<Rightarrow> 'f lib \<Rightarrow> string \<Rightarrow> string \<Rightarrow> string list \<Rightarrow> state \<Rightarrow> string list
     \<Rightarrow> string list \<times> state" where
  "convert_loop h l output_directory audio_format extracted_files st [] =
     (extracted_files, st)"
| "convert_loop h l output_directory audio_format extracted_files st (video_file # rest) =
     (let video_name = stem (Path video_file);
          audio_path = os_path_join output_directory (video_name @ ''.'' @ audio_format)
      in case extract_audio h l st video_file (Some audio_path) audio_format of
           (Inr result, st1) \<Rightarrow>
             convert_loop h l output_directory audio_format (extracted_files @ [result]) st1 rest
         | (Inl e, st1) \<Rightarrow>
             convert_loop h l output_directory audio_format extracted_files
               (emit (Print_failed video_file (error_str e)) st1) rest)"

definition batch_convert ::
  "host \<Rightarrow> 'f lib \<Rightarrow> state \<Rightarrow> string \<Rightarrow> string option \<Rightarrow> string
     \<Rightarrow> (error + string list) \<times> state" where
  "batch_convert h l st video_directory output_directory0 audio_format =
     (if \<not> os_path_exists h (fsys st) video_directory
      then (Inl (FileNotFoundError (''Directory not found: '' @ video_directory)), st)
      else
        case (case output_directory0 of
                None \<Rightarrow> (Inr video_directory, st)
              | Some d \<Rightarrow>
                  (let st0 = emit (Call_makedirs d) st
                   in case makedirs l (fsys st0) d of
                        Inl e \<Rightarrow> (Inl (Propagated e), st0)
                      | Inr f1 \<Rightarrow> (Inr d, st0\<lparr>fsys := f1\<rparr>))) of
          (Inl e, st1) \<Rightarrow> (Inl e, st1)
        | (Inr output_directory, st1) \<Rightarrow>
            (let st2 = emit (Call_listdir video_directory) st1
             in case listdir l (fsys st2) video_directory of
                  Inl e \<Rightarrow> (Inl (Propagated e), st2)
                | Inr names \<Rightarrow>
                    (let video_files =
                           map (os_path_join video_directory)
                             (filter (\<lambda>file. lower (suffix (Path file)) \<in> set video_extensions)
                                names);
                         (extracted_files, st3) =
                           convert_loop h l output_directory audio_format [] st2 video_files
                     in (Inr extracted_files, st3))))"

text \<open>The loop of \<open>batch_transcribe\<close>.\<close>

fun transcribe_loop ::
  "host \<Rightarrow> 'f lib \<Rightarrow> string \<Rightarrow> string option \<Rightarrow> string \<Rightarrow> string list \<Rightarrow> state
     \<Rightarrow> string list \<Rightarrow> string list \<times> state" where
  "transcribe_loop h l output_directory language0 output_format transcribed_files st [] =
     (transcribed_files, st)"
| "transcribe_loop h l output_directory language0 output_format transcribed_files st
     (audio_file # rest) =
     (let audio_name = stem (Path audio_file);
          output_path =
            os_path_join output_directory (audio_name @ ''_transcription.'' @ output_format)
      in case transcribe_and_save h l st audio_file (Some output_path) language0 output_format of
           (Inr result_path, st1) \<Rightarrow>
             transcribe_loop h l output_directory language0 output_format
               (transcribed_files @ [result_path]) st1 rest
         | (Inl e, st1) \<Rightarrow>
             transcribe_loop h l output_directory language0 output_format transcribed_files
               (emit (Print_failed audio_file (error_str e)) st1) rest)"

definition batch_transcribe ::
  "host \<Rightarrow> 'f lib \<Rightarrow> state \<Rightarrow> string \<Rightarrow> string option \<Rightarrow> string option \<Rightarrow> string
     \<Rightarrow> (error + string list) \<times> state" where
  "batch_transcribe h l st audio_directory output_directory0 language0 output_format =
     (if \<not> os_path_exists h (fsys st) audio_directory
      then (Inl (FileNotFoundError (''Directory not found: '' @ audio_directory)), st)
      else
        let output_directory =
              (case output_directory0 of
                 None \<Rightarrow> os_path_join audio_directory ''transcriptions''
               | Some d \<Rightarrow> d);
            st0 = emit (Call_makedirs output_directory) st
        in case makedirs l (fsys st0) output_directory of
             Inl e \<Rightarrow> (Inl (Propagated e), st0)
           | Inr f1 \<Rightarrow>
               (let st1 = emit (Call_listdir audio_directory) (st0\<lparr>fsys := f1\<rparr>)
                in case listdir l (fsys st1) audio_directory of
                     Inl e \<Rightarrow> (Inl (Propagated e), st1)
                   | Inr names \<Rightarrow>
                       (let audio_files =
                              map (os_path_join audio_directory)
                                (filter (\<lambda>file. lower (suffix (Path file)) \<in> set audio_extensions)
                                   names);
                            (transcribed_files, st2) =
                              transcribe_loop h l output_directory language0 output_format []
                                st1 audio_files
                        in (Inr transcribed_files, st2))))"

section \<open>What the specification says, as definitions\<close>

subsection \<open>Subtitle files\<close>

text \<open>
  The specification describes the \<open>srt\<close> file as one block per segment, in order: a
  line with the 1-based index, the time stamp line, and the text; and the \<open>vtt\<close> file as
  the same with the header \<open>WEBVTT\<close>, no index line, and \<open>.\<close> for \<open>,\<close> in the time
  stamps. Each block ends with an empty line.
\<close>

definition text_lines :: "string list \<Rightarrow> string" where
  "text_lines ls = concat (map (\<lambda>s. s @ [newline]) ls)"

definition srt_timestamp_line :: "'f lib \<Rightarrow> 'f segment \<Rightarrow> string" where
  "srt_timestamp_line l seg =
     seconds_to_srt_time l (seg_start seg) @ '' --> '' @ seconds_to_srt_time l (seg_end seg)"

definition comma_to_dot :: "string \<Rightarrow> string" where
  "comma_to_dot s = map (\<lambda>c. if c = CHR '','' then CHR ''.'' else c) s"

definition srt_block :: "'f lib \<Rightarrow> nat \<Rightarrow> 'f segment \<Rightarrow> string" where
  "srt_block l k seg =
     text_lines [str_int (int k), srt_timestamp_line l seg, strip (seg_text seg), []]"

definition vtt_block :: "'f lib \<Rightarrow> 'f segment \<Rightarrow> string" where
  "vtt_block l seg =
     text_lines [comma_to_dot (srt_timestamp_line l seg), strip (seg_text seg), []]"

definition srt_spec :: "'f lib \<Rightarrow> 'f segment list \<Rightarrow> string" where
  "srt_spec l segs = concat (map (\<lambda>k. srt_block l (k + 1) (segs ! k)) [0..<length segs])"

definition vtt_spec :: "'f lib \<Rightarrow> 'f segment list \<Rightarrow> string" where
  "vtt_spec l segs = text_lines [''WEBVTT'', []] @ concat (map (vtt_block l) segs)"

text \<open>The four numbers of a time stamp, the ranges in which each fills its width, and
  the pattern \<open>HH:MM:SS,mmm\<close> (with the separator of the milliseconds as a parameter).\<close>

definition time_fields :: "'f lib \<Rightarrow> 'f \<Rightarrow> int \<times> int \<times> int \<times> int" where
  "time_fields l seconds =
     (to_int l (floordiv l seconds (float_of l 3600)),
      to_int l (floordiv l (fmod l seconds (float_of l 3600)) (float_of l 60)),
      to_int l (fmod l seconds (float_of l 60)),
      to_int l (fmul l (fmod l seconds (float_of l 1)) (float_of l 1000)))"

definition fields_in_range :: "int \<times> int \<times> int \<times> int \<Rightarrow> bool" where
  "fields_in_range t =
     (case t of (hours, minutes, secs, millisecs) \<Rightarrow>
        0 \<le> hours \<and> hours < 100 \<and> 0 \<le> minutes \<and> minutes < 60 \<and>
        0 \<le> secs \<and> secs < 60 \<and> 0 \<le> millisecs \<and> millisecs < 1000)"

definition two_digits :: "nat \<Rightarrow> string" where
  "two_digits n = [char_of (48 + n div 10), char_of (48 + n mod 10)]"

definition three_digits :: "nat \<Rightarrow> string" where
  "three_digits n = char_of (48 + n div 100) # two_digits (n mod 100)"

definition clock_pattern :: "char \<Rightarrow> int \<times> int \<times> int \<times> int \<Rightarrow> string" where
  "clock_pattern sep t =
     (case t of (hours, minutes, secs, millisecs) \<Rightarrow>
        two_digits (nat hours) @ '':'' @ two_digits (nat minutes) @ '':''
          @ two_digits (nat secs) @ [sep] @ three_digits (nat millisecs))"

subsection \<open>Batches\<close>

text \<open>
  The work done for one file of a batch, and the outcomes of the files of a batch taken
  in turn: each file with what its processing returned or raised. After a failure the
  console has one more line.
\<close>

definition convert_one ::
  "host \<Rightarrow> 'f lib \<Rightarrow> string \<Rightarrow> string \<Rightarrow> state \<Rightarrow> string \<Rightarrow> (error + string) \<times> state" where
  "convert_one h l output_directory audio_format st video_file =
     extract_audio h l st video_file
       (Some (os_path_join output_directory (stem (Path video_file) @ ''.'' @ audio_format)))
       audio_format"

definition transcribe_one ::
  "host \<Rightarrow> 'f lib \<Rightarrow> string \<Rightarrow> string option \<Rightarrow> string \<Rightarrow> state \<Rightarrow> string
     \<Rightarrow> (error + string) \<times> state" where
  "transcribe_one h l output_directory language0 output_format st audio_file =
     transcribe_and_save h l st audio_file
       (Some (os_path_join output_directory
                (stem (Path audio_file) @ ''_transcription.'' @ output_format)))
       language0 output_format"

fun outcomes ::
  "(state \<Rightarrow> string \<Rightarrow> (error + string) \<times> state) \<Rightarrow> state \<Rightarrow> string list
     \<Rightarrow> (string \<times> (error + string)) list" where
  "outcomes step st [] = []"
| "outcomes step st (file # rest) =
     (case step st file of
        (Inr p, st1) \<Rightarrow> (file, Inr p) # outcomes step st1 rest
      | (Inl e, st1) \<Rightarrow>
          (file, Inl e) # outcomes step (emit (Print_failed file (error_str e)) st1) rest)"

fun successes :: "(string \<times> (error + string)) list \<Rightarrow> string list" where
  "successes [] = []"
| "successes ((file, Inr p) # os) = p # successes os"
| "successes ((file, Inl e) # os) = successes os"

fun failures :: "(string \<times> (error + string)) list \<Rightarrow> (string \<times> string) list" where
  "failures [] = []"
| "failures ((file, Inr p) # os) = failures os"
| "failures ((file, Inl e) # os) = (file, error_str e) # failures os"

text \<open>The failure lines of a console trace.\<close>

fun failure_lines :: "event list \<Rightarrow> (string \<times> string) list" where
  "failure_lines [] = []"
| "failure_lines (Print_failed file m # es) = (file, m) # failure_lines es"
| "failure_lines (e # es) = failure_lines es"

text \<open>The file names of a listing that a batch takes, with the directory in front.\<close>

definition matching_files :: "string list \<Rightarrow> string \<Rightarrow> string list \<Rightarrow> string list" where
  "matching_files extensions directory names =
     map (os_path_join directory)
       (filter (\<lambda>file. lower (suffix (Path file)) \<in> set extensions) names)"

section \<open>An example host\<close>

text \<open>
  A host for the closed theorems below. Its float operations are exact arithmetic on
  rational numbers; the example times (\<open>0\<close> and \<open>1.5\<close>) are floats on which the float
  operations are exact. The clip of \<open>/v/silent.mp4\<close> has no audio track, opening
  \<open>/v/broken.mp4\<close> fails, writing to \<open>/readonly/out.mp3\<close> fails, and the model
  fails on \<open>/a/bad.mp3\<close>.
\<close>

definition example_host :: host where
  "example_host = \<lparr>home = ''/home/u'', cwd = ''/work''\<rparr>"

definition no_files :: fs where
  "no_files p = False"

definition spaced_file :: fs where
  "spaced_file p = (p = ''/home/u/Desktop/x.mp4 '')"

definition desktop_file :: fs where
  "desktop_file p = (p = ''/home/u/Desktop/x.mp4'')"

definition example_files :: fs where
  "example_files p =
     (p \<in> set [''/v'', ''/v/a.mp4'', ''/v/silent.mp4'', ''/v/broken.mp4'', ''/v/c.MP4'',
                ''/work/clip.mp4'', ''/a'', ''/a/one.mp3'', ''/a/bad.mp3'', ''/a/two.wav''])"

definition example_result :: "rat transcription" where
  "example_result =
     \<lparr>full_text = '' hello world'',
      segments = [\<lparr>seg_start = 0, seg_end = 3 / 2, seg_text = '' hello''\<rparr>,
                  \<lparr>seg_start = 3 / 2, seg_end = 7265, seg_text = '' world, again ''\<rparr>],
      language = Some ''en'',
      metadata = None\<rparr>"

definition example_lib :: "rat lib" where
  "example_lib =
     \<lparr>VideoFileClip =
        (\<lambda>f p. if p = ''/v/broken.mp4'' then Inl (LibError ''boom'')
                else Inr (Clip p (p \<noteq> ''/v/silent.mp4''))),
      write_audiofile =
        (\<lambda>f c out. if out = ''/readonly/out.mp3'' then (Some (LibError ''Permission denied''), f)
                    else (None, f(out := True))),
      load_model = (\<lambda>size. None),
      transcribe =
        (\<lambda>f p hint. if p = ''/a/bad.mp3'' then Inl (LibError ''bad audio'')
                     else Inr example_result),
      now_isoformat = ''2025-09-21T13:33:26'',
      json_dumps = (\<lambda>r. ''{}''),
      makedirs = (\<lambda>f d. Inr (f(d := True))),
      listdir =
        (\<lambda>f d. if d = ''/v'' then Inr [''a.mp4'', ''broken.mp4'', ''notes.txt'', ''c.MP4'']
                 else if d = ''/a'' then Inr [''one.mp3'', ''bad.mp3'', ''two.wav'']
                 else Inl (LibError ''not a directory'')),
      open_w = (\<lambda>f p. Inr (f(p := True))),
      floordiv = (\<lambda>a b. of_int \<lfloor>a / b\<rfloor>),
      fmod = (\<lambda>a b. a - b * of_int \<lfloor>a / b\<rfloor>),
      fmul = (\<lambda>a b. a * b),
      float_of = of_int,
      to_int = (\<lambda>a. if a < 0 then - \<lfloor>- a\<rfloor> else \<lfloor>a\<rfloor>)\<rparr>"

definition example_state :: state where
  "example_state =
     \<lparr>fsys = example_files, files = Map.empty, open_clips = [], model_size = ''base'',
      model_loaded = False, trace = []\<rparr>"

section \<open>Python floats\<close>

text \<open>
  A finite Python float is a binary64 number, kept as the rational number it stands
  for; infinities and NaN, on which \<open>int(x)\<close> raises, are outside the model, and so is
  the sign of zero. Every float operation returns the exact result rounded to the
  nearest binary64 number, ties to even: 53 significant bits, and below \<open>2^-1022\<close> the
  fixed spacing of the subnormal numbers. Results beyond the largest float do not occur
  in the time stamp functions.
\<close>

text \<open>Rounding to the nearest integer, ties to even.\<close>

definition rne :: "rat \<Rightarrow> int" where
  "rne t =
     (let n = \<lfloor>t\<rfloor>; d = t - of_int n
      in if d < 1 / 2 then n else if 1 / 2 < d then n + 1
         else if even n then n else n + 1)"

text \<open>The number of bits of a positive integer, and the exponent \<open>e\<close> of a positive
  rational number \<open>x\<close>: the one with \<open>2^e \<le> x < 2^(e+1)\<close>.\<close>

function bitlen :: "int \<Rightarrow> int" where
  "bitlen n = (if 0 < n then bitlen (n div 2) + 1 else 0)"
  by pat_completeness auto
termination
  by (relation "measure nat") auto

declare bitlen.simps [simp del]

definition ilog2 :: "rat \<Rightarrow> int" where
  "ilog2 x =
     (case quotient_of x of (p, q) \<Rightarrow>
        let d = bitlen p - bitlen q
        in if 2 powi d \<le> x then d else d - 1)"

text \<open>Rounding to binary64.\<close>

definition round64 :: "rat \<Rightarrow> rat" where
  "round64 x =
     (if x = 0 then 0
      else let e = max (ilog2 \<bar>x\<bar>) (- 1022); u = 2 powi (e - 52)
           in sgn x * of_int (rne (\<bar>x\<bar> / u)) * u)"

text \<open>\<open>int(x)\<close> truncates towards zero.\<close>

definition py_int :: "rat \<Rightarrow> int" where
  "py_int x = (if x < 0 then - \<lfloor>- x\<rfloor> else \<lfloor>x\<rfloor>)"

text \<open>
  \<open>x % y\<close> and \<open>x // y\<close> on floats, as CPython's \<open>float_rem\<close> and
  \<open>float_floor_div\<close> compute them, for a divisor that is not zero (the program divides
  by constants): C's \<open>fmod\<close> is exact; the remainder takes the sign of the divisor;
  the quotient is \<open>(x - mod) / y\<close> in float arithmetic, snapped to the nearest integer.
\<close>

definition c_fmod :: "rat \<Rightarrow> rat \<Rightarrow> rat" where
  "c_fmod x y = x - y * of_int (py_int (x / y))"

definition py_mod :: "rat \<Rightarrow> rat \<Rightarrow> rat" where
  "py_mod x y =
     (let m = c_fmod x y
      in if m \<noteq> 0 \<and> (y < 0) \<noteq> (m < 0) then round64 (m + y) else m)"

definition py_floordiv :: "rat \<Rightarrow> rat \<Rightarrow> rat" where
  "py_floordiv x y =
     (let m = c_fmod x y;
          d0 = round64 (round64 (x - m) / y);
          d = (if m \<noteq> 0 \<and> (y < 0) \<noteq> (m < 0) then round64 (d0 - 1) else d0)
      in if d \<noteq> 0
         then (let f = of_int \<lfloor>d\<rfloor> in if 1 / 2 < d - f then round64 (f + 1) else f)
         else 0)"

text \<open>\<open>x * y\<close> on floats, and the conversion of an \<open>int\<close> operand to a float.\<close>

definition py_mul :: "rat \<Rightarrow> rat \<Rightarrow> rat" where
  "py_mul x y = round64 (x * y)"

definition py_float :: "int \<Rightarrow> rat" where
  "py_float n = round64 (of_int n)"

text \<open>A library whose float operations are Python's, and the example library with
  them.\<close>

definition python_floats :: "rat lib \<Rightarrow> bool" where
  "python_floats l =
     (floordiv l = py_floordiv \<and> fmod l = py_mod \<and> fmul l = py_mul
      \<and> float_of l = py_float \<and> to_int l = py_int)"

definition binary64_lib :: "rat lib" where
  "binary64_lib =
     example_lib\<lparr>floordiv := py_floordiv, fmod := py_mod, fmul := py_mul,
                 float_of := py_float, to_int := py_int\<rparr>"

section \<open>Paths: roots and absolute paths\<close>

lemma isabs_Cons: "isabs s = (\<exists>cs. s = slash # cs)"
  by (cases s) (auto simp: isabs_def)

lemma root_Path: "(root (Path s) \<noteq> []) = isabs s"
  by (cases s) (auto simp: Path_def splitroot_def isabs_def)

lemma root_Path_cases:
  "root (Path s) = [] \<or> root (Path s) = [slash] \<or> root (Path s) = [slash, slash]"
  by (auto simp: Path_def splitroot_def)

lemma isabs_path_str: "root p \<noteq> [] \<Longrightarrow> hd (root p) = slash \<Longrightarrow> isabs (path_str p)"
  by (cases "root p") (auto simp: path_str_def isabs_def)

lemma isabs_path_str_Path: "isabs s \<Longrightarrow> isabs (path_str (Path s))"
  using root_Path_cases [of s] root_Path [of s]
  by (auto intro!: isabs_path_str)

lemma isabs_os_path_join: "isabs a \<Longrightarrow> isabs (os_path_join a b)"
  unfolding os_path_join_def isabs_def [symmetric]
  by (auto simp: isabs_Cons)

lemma isabs_joinpath: "isabs (path_str p) \<Longrightarrow> isabs (path_str (joinpath p s))"
  unfolding joinpath_def by (intro isabs_path_str_Path isabs_os_path_join)

lemma root_joinpath: "isabs (path_str p) \<Longrightarrow> root (joinpath p s) \<noteq> []"
  unfolding joinpath_def by (simp add: root_Path isabs_os_path_join)

lemma path_exists_abs: "root p \<noteq> [] \<Longrightarrow> path_exists h f p = f (path_str p)"
  by (simp add: path_exists_def absolute_def)

lemma strip_id:
  assumes "t \<noteq> []" "\<not> isspace (hd t)" "\<not> isspace (last t)"
  shows "strip t = t"
proof -
  have 1: "dropWhile isspace t = t" using assms by (cases t) auto
  have 2: "dropWhile isspace (rev t) = rev t" using assms by (cases t rule: rev_cases) auto
  show ?thesis by (simp add: strip_def 1 2)
qed

section \<open>resolve_path\<close>

text \<open>
  C8, as the code has it. \<open>resolve_path\<close> strips the token first and tests the stripped
  token: when the stripped token is an absolute path, the stripped token is returned.
  So an absolute token that neither begins nor ends with whitespace is returned
  unchanged, character for character.
\<close>

theorem resolve_path_absolute:
  assumes "isabs (strip t)"
  shows "resolve_path h f t = strip t
         \<and> (\<not> isspace (hd t) \<and> \<not> isspace (last t) \<longrightarrow> resolve_path h f t = t)"
proof -
  have r: "resolve_path h f t = strip t"
    using assms by (simp add: resolve_path_def)
  have "t \<noteq> []" using assms by (auto simp: strip_def isabs_def)
  then show ?thesis using r by (auto simp: strip_id)
qed

theorem resolve_path_absolute_witness:
  "isabs (strip ''/a/b '') \<and> resolve_path example_host no_files ''/a/b '' = ''/a/b''
   \<and> isabs (strip ''/a/b'') \<and> \<not> isspace (hd ''/a/b'') \<and> \<not> isspace (last ''/a/b'')
   \<and> resolve_path example_host no_files ''/a/b'' = ''/a/b''"
proof -
  have h1: "isabs (strip ''/a/b '')" by code_simp
  have s1: "strip ''/a/b '' = ''/a/b''" by code_simp
  have h2: "isabs (strip ''/a/b'')" by code_simp
  have h3: "\<not> isspace (hd ''/a/b'') \<and> \<not> isspace (last ''/a/b'')" by code_simp
  have s2: "strip ''/a/b'' = ''/a/b''" by code_simp
  show ?thesis
    using h1 h2 h3 s1 s2 resolve_path_absolute [OF h1, of example_host no_files]
      resolve_path_absolute [OF h2, of example_host no_files]
    by simp
qed

text \<open>
  C8 as stated fails: the token \<open>/a/b\<close> followed by a space is an
  absolute path, and what is returned is \<open>/a/b\<close>, without the space.
\<close>

theorem resolve_path_absolute_counterexample:
  "isabs ''/a/b '' \<and> resolve_path example_host no_files ''/a/b '' \<noteq> ''/a/b ''"
  by code_simp

lemma folders_abs:
  assumes "isabs (home h)" "(shortcut, folder) \<in> set (get_common_folders h)"
  shows "isabs (path_str folder)"
  using assms
  by (auto simp: get_common_folders_def Let_def intro!: isabs_joinpath isabs_path_str_Path)

lemma shortcut_loop_hit:
  assumes tok: "tok = shortcut @ sep # rest"
    and sep: "sep = slash \<or> sep = backslash"
    and mem: "(shortcut, folder) \<in> set (get_common_folders h)"
  shows "shortcut_loop h f tok (get_common_folders h) =
           (if path_exists h f (joinpath folder rest)
            then Some (path_str (joinpath folder rest)) else None)"
proof -
  from mem have
    "shortcut = ''desktop'' \<and> folder = joinpath (Path (home h)) ''Desktop'' \<or>
     shortcut = ''downloads'' \<and> folder = joinpath (Path (home h)) ''Downloads'' \<or>
     shortcut = ''documents'' \<and> folder = joinpath (Path (home h)) ''Documents'' \<or>
     shortcut = ''videos'' \<and> folder = joinpath (Path (home h)) ''Videos'' \<or>
     shortcut = ''music'' \<and> folder = joinpath (Path (home h)) ''Music'' \<or>
     shortcut = ''pictures'' \<and> folder = joinpath (Path (home h)) ''Pictures'' \<or>
     shortcut = ''onedrive_desktop'' \<and>
       folder = joinpath (joinpath (Path (home h)) ''OneDrive'') ''Desktop''"
    by (simp add: get_common_folders_def Let_def)
  then show ?thesis
    using sep unfolding tok get_common_folders_def Let_def
    by (elim disjE conjE) simp_all
qed

text \<open>
  C1, as the code has it. Take a token whose stripped form is a key of the folder table,
  then \<open>/\<close> or a backslash, then a rest, on a host with an absolute home directory.
  With \<open>joined\<close> the rest joined to that folder: the joined path is returned when it
  exists; otherwise (the bare file name search is skipped, the token having a
  separator) the absolute form of the stripped token is returned when the stripped
  token exists under the working directory, and the stripped token itself when it does
  not. The joined path is what is returned if and only if it exists.
\<close>

theorem resolve_path_shortcut:
  assumes tok: "strip t = shortcut @ sep # rest"
    and sep: "sep = slash \<or> sep = backslash"
    and mem: "(shortcut, folder) \<in> set (get_common_folders h)"
    and home: "isabs (home h)"
  shows "resolve_path h f t =
           (if path_exists h f (joinpath folder rest) then path_str (joinpath folder rest)
            else if path_exists h f (Path (strip t))
                 then path_str (absolute h (Path (strip t)))
            else strip t)
         \<and> (resolve_path h f t = path_str (joinpath folder rest)
              \<longleftrightarrow> path_exists h f (joinpath folder rest))"
proof -
  let ?J = "joinpath folder rest"
  have notabs: "\<not> isabs (strip t)"
    using mem unfolding tok get_common_folders_def Let_def by (auto simp: isabs_def)
  have seps: "(slash \<notin> set (strip t) \<and> backslash \<notin> set (strip t)) = False"
    using sep unfolding tok by auto
  have eq: "resolve_path h f t =
           (if path_exists h f ?J then path_str ?J
            else if path_exists h f (Path (strip t))
                 then path_str (absolute h (Path (strip t)))
            else strip t)"
    unfolding resolve_path_def Let_def
    by (simp add: notabs seps shortcut_loop_hit [OF tok sep mem])
  have Jabs: "isabs (path_str ?J)"
    by (rule isabs_joinpath [OF folders_abs [OF home mem]])
  have Jex: "path_exists h f ?J = f (path_str ?J)"
    by (rule path_exists_abs [OF root_joinpath [OF folders_abs [OF home mem]]])
  have "path_exists h f ?J" if r: "resolve_path h f t = path_str ?J"
  proof (rule ccontr)
    assume n: "\<not> path_exists h f ?J"
    show False
    proof (cases "path_exists h f (Path (strip t))")
      case True
      with n eq r have "path_str (absolute h (Path (strip t))) = path_str ?J" by simp
      moreover from True have "f (path_str (absolute h (Path (strip t))))"
        by (simp add: path_exists_def)
      ultimately show False using n Jex by simp
    next
      case False
      with n eq r have "strip t = path_str ?J" by simp
      with Jabs notabs show False by simp
    qed
  qed
  with eq show ?thesis by auto
qed

theorem resolve_path_shortcut_witness:
  "strip ''desktop/x.mp4 '' = ''desktop'' @ slash # ''x.mp4''
   \<and> (''desktop'', joinpath (Path (home example_host)) ''Desktop'')
        \<in> set (get_common_folders example_host)
   \<and> isabs (home example_host)
   \<and> resolve_path example_host desktop_file ''desktop/x.mp4 '' = ''/home/u/Desktop/x.mp4''
   \<and> resolve_path example_host no_files ''desktop/x.mp4 '' = ''desktop/x.mp4''"
proof -
  let ?D = "joinpath (Path (home example_host)) ''Desktop''"
  have 1: "strip ''desktop/x.mp4 '' = ''desktop'' @ slash # ''x.mp4''" by code_simp
  have 2: "slash = slash \<or> slash = backslash" by simp
  have 3: "(''desktop'', ?D) \<in> set (get_common_folders example_host)" by code_simp
  have 4: "isabs (home example_host)" by code_simp
  have 5: "path_exists example_host desktop_file (joinpath ?D ''x.mp4'')" by code_simp
  have 6: "path_str (joinpath ?D ''x.mp4'') = ''/home/u/Desktop/x.mp4''" by code_simp
  have 7: "\<not> path_exists example_host no_files (joinpath ?D ''x.mp4'')" by code_simp
  have 8: "\<not> path_exists example_host no_files (Path (strip ''desktop/x.mp4 ''))"
    by code_simp
  show ?thesis
    using resolve_path_shortcut [OF 1 2 3 4, of desktop_file]
      resolve_path_shortcut [OF 1 2 3 4, of no_files] 1 3 4 5 6 7 8
    by simp
qed

text \<open>
  C1 as stated fails: the token \<open>desktop/x.mp4\<close> followed by a space has
  the form of a key, a separator and the rest \<open>x.mp4\<close> followed by a space. On a disk
  where the rest joined to the desktop folder exists, the joined path is not what is
  returned, and what is returned is not the token either.
\<close>

theorem resolve_path_shortcut_counterexample:
  "(''desktop'', joinpath (Path (home example_host)) ''Desktop'')
        \<in> set (get_common_folders example_host)
   \<and> path_exists example_host spaced_file
        (joinpath (joinpath (Path (home example_host)) ''Desktop'') ''x.mp4 '')
   \<and> resolve_path example_host spaced_file (''desktop'' @ slash # ''x.mp4 '')
        \<noteq> path_str (joinpath (joinpath (Path (home example_host)) ''Desktop'') ''x.mp4 '')
   \<and> resolve_path example_host spaced_file (''desktop'' @ slash # ''x.mp4 '')
        \<noteq> ''desktop'' @ slash # ''x.mp4 ''"
  by code_simp

section \<open>Paths: parsing and joining\<close>

lemma split_not_Nil [simp]: "split c xs \<noteq> []"
  by (induction xs) (auto split: list.splits)

lemma split_no_sep: "c \<notin> set xs \<Longrightarrow> split c xs = [xs]"
  by (induction xs) auto

lemma split_append: "split c (xs @ c # ys) = split c xs @ split c ys"
  by (induction xs) (auto split: list.splits)

lemma split_parts_no_sep: "x \<in> set (split c xs) \<Longrightarrow> c \<notin> set x"
  by (induction xs arbitrary: x) (auto split: list.splits if_splits)

lemma join_snoc: "ps \<noteq> [] \<Longrightarrow> join sep (ps @ [c]) = join sep ps @ sep @ c"
  by (induction sep ps rule: join.induct) auto

lemma split_join:
  "ps \<noteq> [] \<Longrightarrow> \<forall>x\<in>set ps. slash \<notin> set x \<Longrightarrow> split slash (join [slash] ps) = ps"
proof (induction "[slash]" ps rule: join.induct)
  case 1
  then show ?case by simp
next
  case (2 p)
  then show ?case by (simp add: split_no_sep)
next
  case (3 p q ps)
  then show ?case using split_append [of slash p "join [slash] (q # ps)"]
    by (simp add: split_no_sep)
qed

lemma wf_Path: "wf_path (Path s)"
  by (auto simp: wf_path_def Path_def splitroot_def list_all_iff is_part_def
           dest: split_parts_no_sep)

lemma join_parts_hd:
  "ps \<noteq> [] \<Longrightarrow> list_all is_part ps \<Longrightarrow> \<exists>c cs. join [slash] ps = c # cs \<and> c \<noteq> slash"
  by (induction "[slash]" ps rule: join.induct) (auto simp: is_part_def neq_Nil_conv)

lemma filter_parts: "list_all is_part ps \<Longrightarrow> filter (\<lambda>x. x \<noteq> [] \<and> x \<noteq> ''.'') ps = ps"
  by (induction ps) (auto simp: is_part_def)

lemma Path_path_str:
  assumes "wf_path p"
  shows "Path (path_str p) = p"
proof (cases p)
  case (PurePath r ps)
  with assms have r: "r = [] \<or> r = [slash] \<or> r = [slash, slash]" and ps: "list_all is_part ps"
    by (auto simp: wf_path_def)
  show ?thesis
  proof (cases "ps = []")
    case True
    with r show ?thesis unfolding PurePath
      by (auto simp: path_str_def Path_def splitroot_def)
  next
    case False
    from join_parts_hd [OF False ps] obtain c cs where j: "join [slash] ps = c # cs" "c \<noteq> slash"
      by blast
    have s: "split slash (join [slash] ps) = ps"
      using False ps by (intro split_join) (auto simp: list_all_iff is_part_def)
    have f: "filter (\<lambda>x. x \<noteq> [] \<and> x \<noteq> ''.'') (split slash (c # cs)) = ps"
      using s filter_parts [OF ps] by (simp add: j)
    from r show ?thesis unfolding PurePath using False j f
      by (auto simp: path_str_def Path_def splitroot_def simp del: split.simps)
  qed
qed

lemma join_not_Nil: "ps \<noteq> [] \<Longrightarrow> list_all is_part ps \<Longrightarrow> join [slash] ps \<noteq> []"
  using join_parts_hd [of ps] by auto

lemma last_join:
  "ps \<noteq> [] \<Longrightarrow> list_all is_part ps \<Longrightarrow> last (join [slash] ps) \<noteq> slash"
proof (induction "[slash]" ps rule: join.induct)
  case 1
  then show ?case by simp
next
  case (2 p)
  then have "p \<noteq> []" "slash \<notin> set p" by (auto simp: is_part_def)
  then show ?case by (metis join.simps(2) last_in_set)
next
  case (3 p q ps)
  then have "join [slash] (q # ps) \<noteq> []" by (intro join_not_Nil) auto
  with 3 show ?case by simp
qed

lemma joinpath_part:
  assumes wf: "wf_path p" and c: "is_part c"
  shows "joinpath p c = PurePath (root p) (parts p @ [c])"
proof (cases p)
  case (PurePath r ps)
  with wf have r: "r = [] \<or> r = [slash] \<or> r = [slash, slash]" and ps: "list_all is_part ps"
    by (auto simp: wf_path_def)
  have wf': "wf_path (PurePath r (ps @ [c]))"
    using r ps c by (auto simp: wf_path_def)
  have nc: "\<not> startswith c [slash]"
    using c by (cases c) (auto simp: is_part_def)
  show ?thesis
  proof (cases "ps = []")
    case True
    show ?thesis
    proof (cases "r = []")
      case True
      with \<open>ps = []\<close> nc c show ?thesis unfolding PurePath joinpath_def
        by (auto simp: path_str_def os_path_join_def Path_def splitroot_def is_part_def
              split_no_sep)
    next
      case False
      with r \<open>ps = []\<close> nc have "os_path_join (path_str (PurePath r ps)) c
          = path_str (PurePath r (ps @ [c]))"
        by (auto simp: path_str_def os_path_join_def)
      then show ?thesis unfolding PurePath joinpath_def
        using Path_path_str [OF wf'] by simp
    qed
  next
    case False
    have l: "last (join [slash] ps) \<noteq> slash" by (rule last_join [OF False ps])
    have n: "join [slash] ps \<noteq> []" using join_parts_hd [OF False ps] by auto
    have "os_path_join (path_str (PurePath r ps)) c = path_str (PurePath r (ps @ [c]))"
      using False nc l n
      by (auto simp: path_str_def os_path_join_def join_snoc)
    then show ?thesis unfolding PurePath joinpath_def
      using Path_path_str [OF wf'] by simp
  qed
qed

lemma stem_suffix: "stem_of n @ suffix_of n = n"
  by (auto simp: stem_of_def suffix_of_def split: option.splits)

lemma set_stem_of: "set (stem_of n) \<subseteq> set n"
  by (auto simp: stem_of_def split: option.splits if_splits dest: in_set_takeD)

lemma wf_parent: "wf_path p \<Longrightarrow> wf_path (parent p)"
  by (auto simp: wf_path_def parent_def list_all_iff dest: in_set_butlastD)

lemma is_part_output:
  assumes "wf_path p" "slash \<notin> set fmt" "fmt \<noteq> []"
  shows "is_part (stem p @ ''.'' @ fmt)"
proof -
  have "slash \<notin> set (name p)"
    using assms(1) by (auto simp: name_def wf_path_def list_all_iff is_part_def)
  then have "slash \<notin> set (stem p)"
    using set_stem_of [of "name p"] by (auto simp: stem_def)
  then show ?thesis using assms by (auto simp: is_part_def append_eq_Cons_conv)
qed

section \<open>extract_audio and transcribe_audio\<close>

lemma emit_simps [simp]:
  "fsys (emit e st) = fsys st" "files (emit e st) = files st"
  "open_clips (emit e st) = open_clips st" "model_size (emit e st) = model_size st"
  "model_loaded (emit e st) = model_loaded st" "trace (emit e st) = trace st @ [e]"
  by (simp_all add: emit_def)

text \<open>
  C5. When the resolved video path does not exist, \<open>extract_audio\<close> raises
  \<open>FileNotFoundError\<close> and the state is unchanged: no library call has been made. When
  it exists, whatever \<open>extract_audio\<close> returns or raises is not a
  \<open>FileNotFoundError\<close>. The same holds of \<open>transcribe_audio\<close> and its audio path:
  on a missing path the model is not loaded and not called. An existing path is one that
  \<open>os.path.exists\<close> accepts on the string as it is written, a file or a directory:
  the empty string, and the name of a regular file followed by a slash, do not exist.
\<close>

theorem not_found_precondition:
  "(\<not> os_path_exists h (fsys st) (resolve_path h (fsys st) video_path) \<longrightarrow>
      (\<exists>m. extract_audio h l st video_path audio_path audio_format
             = (Inl (FileNotFoundError m), st)))
   \<and> (os_path_exists h (fsys st) (resolve_path h (fsys st) video_path) \<longrightarrow>
      (\<forall>m. fst (extract_audio h l st video_path audio_path audio_format)
             \<noteq> Inl (FileNotFoundError m)))
   \<and> (\<not> os_path_exists h (fsys st) audio \<longrightarrow>
      (\<exists>m. transcribe_audio h l st audio hint output_format
             = (Inl (FileNotFoundError m), st)))
   \<and> (os_path_exists h (fsys st) audio \<longrightarrow>
      (\<forall>m. fst (transcribe_audio h l st audio hint output_format)
             \<noteq> Inl (FileNotFoundError m)))"
  by (auto simp: extract_audio_def transcribe_audio_def Let_def
           split: sum.splits prod.splits option.splits)

theorem not_found_precondition_witness:
  "\<not> os_path_exists example_host (fsys example_state)
       (resolve_path example_host (fsys example_state) ''missing.mp4'')
   \<and> (\<exists>m. extract_audio example_host example_lib example_state ''missing.mp4'' None ''mp3''
            = (Inl (FileNotFoundError m), example_state))
   \<and> os_path_exists example_host (fsys example_state)
       (resolve_path example_host (fsys example_state) ''clip.mp4'')
   \<and> (\<forall>m. fst (extract_audio example_host example_lib example_state ''clip.mp4'' None ''mp3'')
            \<noteq> Inl (FileNotFoundError m))
   \<and> \<not> os_path_exists example_host (fsys example_state) ''/a/nothing.mp3''
   \<and> (\<exists>m. transcribe_audio example_host example_lib example_state ''/a/nothing.mp3'' None ''txt''
            = (Inl (FileNotFoundError m), example_state))
   \<and> os_path_exists example_host (fsys example_state) ''/a/one.mp3''
   \<and> (\<forall>m. fst (transcribe_audio example_host example_lib example_state ''/a/one.mp3'' None ''txt'')
            \<noteq> Inl (FileNotFoundError m))
   \<and> \<not> os_path_exists example_host (fsys example_state)
       (resolve_path example_host (fsys example_state) ''/v/a.mp4/'')
   \<and> (\<exists>m. extract_audio example_host example_lib example_state ''/v/a.mp4/'' None ''mp3''
            = (Inl (FileNotFoundError m), example_state))
   \<and> \<not> os_path_exists example_host (fsys example_state) ''''
   \<and> (\<exists>m. transcribe_audio example_host example_lib example_state '''' None ''txt''
            = (Inl (FileNotFoundError m), example_state))
   \<and> \<not> os_path_exists example_host (fsys example_state) ''/a/one.mp3/.''
   \<and> (\<exists>m. transcribe_audio example_host example_lib example_state ''/a/one.mp3/.'' None ''txt''
            = (Inl (FileNotFoundError m), example_state))"
proof -
  have 5: "\<not> os_path_exists example_host (fsys example_state)
       (resolve_path example_host (fsys example_state) ''/v/a.mp4/'')" by code_simp
  have 6: "\<not> os_path_exists example_host (fsys example_state) ''''" by code_simp
  have 7: "\<not> os_path_exists example_host (fsys example_state) ''/a/one.mp3/.''" by code_simp
  have 1: "\<not> os_path_exists example_host (fsys example_state)
       (resolve_path example_host (fsys example_state) ''missing.mp4'')" by code_simp
  have 2: "os_path_exists example_host (fsys example_state)
       (resolve_path example_host (fsys example_state) ''clip.mp4'')" by code_simp
  have 3: "\<not> os_path_exists example_host (fsys example_state) ''/a/nothing.mp3''" by code_simp
  have 4: "os_path_exists example_host (fsys example_state) ''/a/one.mp3''" by code_simp
  show ?thesis
    using 1 2 3 4 5 6 7
      not_found_precondition [of example_host example_state "''missing.mp4''" example_lib
        None "''mp3''" "''/a/nothing.mp3''" None "''txt''"]
      not_found_precondition [of example_host example_state "''clip.mp4''" example_lib
        None "''mp3''" "''/a/one.mp3''" None "''txt''"]
      not_found_precondition [of example_host example_state "''/v/a.mp4/''" example_lib
        None "''mp3''" "''''" None "''txt''"]
      not_found_precondition [of example_host example_state "''/v/a.mp4/''" example_lib
        None "''mp3''" "''/a/one.mp3/.''" None "''txt''"]
    by blast
qed

text \<open>
  C7. When no output path is given and the extraction succeeds, with a format that is
  not empty and has no slash: the output path has the root and the directories of the
  resolved input, and its last component is the stem of the input's name, a dot and the
  format; the stem is the name without its suffix. So the output is in the directory of
  the resolved input, and \<open>clip.mp4\<close> gives \<open>clip.mp3\<close>.
\<close>

theorem default_output_path:
  assumes res: "extract_audio h l st video_path None audio_format = (Inr out, st')"
    and fmt: "slash \<notin> set audio_format" "audio_format \<noteq> []"
    and v: "video_file = Path (resolve_path h (fsys st) video_path)"
  shows "Path out = PurePath (root video_file)
                      (butlast (parts video_file) @ [stem video_file @ ''.'' @ audio_format])
         \<and> parent (Path out) = parent video_file
         \<and> name (Path out) = stem video_file @ ''.'' @ audio_format
         \<and> stem video_file @ suffix video_file = name video_file"
proof -
  have wf: "wf_path video_file" unfolding v by (rule wf_Path)
  let ?c = "stem video_file @ ''.'' @ audio_format"
  have c: "is_part ?c" by (rule is_part_output [OF wf fmt])
  have out: "out = path_str (joinpath (parent video_file) ?c)"
    using res unfolding v
    by (auto simp: extract_audio_def Let_def split: if_splits sum.splits prod.splits option.splits)
  have j: "joinpath (parent video_file) ?c
             = PurePath (root video_file) (butlast (parts video_file) @ [?c])"
    using joinpath_part [OF wf_parent [OF wf] c] by (auto simp: parent_def)
  have wf': "wf_path (PurePath (root video_file) (butlast (parts video_file) @ [?c]))"
    using wf_parent [OF wf] c wf by (auto simp: wf_path_def parent_def list_all_iff dest: in_set_butlastD)
  have P: "Path out = PurePath (root video_file) (butlast (parts video_file) @ [?c])"
    unfolding out j by (rule Path_path_str [OF wf'])
  show ?thesis unfolding P
    by (cases video_file) (auto simp: parent_def name_def stem_def suffix_def stem_suffix)
qed

theorem default_output_path_witness:
  "fst (extract_audio example_host example_lib example_state ''clip.mp4'' None ''mp3'')
     = Inr ''/work/clip.mp3''
   \<and> slash \<notin> set ''mp3'' \<and> ''mp3'' \<noteq> []
   \<and> Path (resolve_path example_host (fsys example_state) ''clip.mp4'')
       = PurePath [slash] [''work'', ''clip.mp4'']
   \<and> Path ''/work/clip.mp3'' = PurePath [slash] [''work'', ''clip.mp3'']
   \<and> parent (Path ''/work/clip.mp3'') = parent (PurePath [slash] [''work'', ''clip.mp4''])
   \<and> name (Path ''/work/clip.mp3'') = ''clip.mp3''"
proof -
  let ?E = "extract_audio example_host example_lib example_state ''clip.mp4'' None ''mp3''"
  have 0: "fst ?E = Inr ''/work/clip.mp3''" by code_simp
  then have 1: "?E = (Inr ''/work/clip.mp3'', snd ?E)" by (metis prod.collapse)
  have 2: "slash \<notin> set ''mp3''" by simp
  have 3: "''mp3'' \<noteq> []" by simp
  have 4: "PurePath [slash] [''work'', ''clip.mp4'']
             = Path (resolve_path example_host (fsys example_state) ''clip.mp4'')"
    by code_simp
  have 5: "stem (PurePath [slash] [''work'', ''clip.mp4'']) = ''clip''" by code_simp
  show ?thesis
    using default_output_path [OF 1 2 3 4] 0 4 [symmetric] 5 by (simp add: parent_def name_def)
qed

text \<open>
  C9, as the code has it. With an existing resolved path, every failure of the
  extraction (the clip cannot be opened, it has no audio track, or writing the audio
  fails) is raised once, as an \<open>Exception\<close> whose message is
  \<open>Error during audio extraction:\<close> followed by the \<open>str\<close> of the failure, the failure
  itself being the exception handled; the trace shows one call of \<open>VideoFileClip\<close> and at
  most one of \<open>write_audiofile\<close>, so nothing is tried again. Every error raised on an
  existing path has this form. The paths are not put into the message.
\<close>

theorem extraction_failure_wrapped:
  assumes ex: "os_path_exists h (fsys st) r"
    and r: "r = resolve_path h (fsys st) video_path"
    and ap: "ap = (case audio_path of
                     None \<Rightarrow> path_str (joinpath (parent (Path r))
                                        (stem (Path r) @ ''.'' @ audio_format))
                   | Some a \<Rightarrow> resolve_path h (fsys st) a)"
  shows "(VideoFileClip l (fsys st) r = Inl e \<longrightarrow>
            extract_audio h l st video_path audio_path audio_format
              = (Inl (Exception (''Error during audio extraction: '' @ str e) e),
                 st\<lparr>trace := trace st @ [Call_VideoFileClip r]\<rparr>))
         \<and> (VideoFileClip l (fsys st) r = Inr video \<and> has_audio video
              \<and> write_audiofile l (fsys st) video ap = (Some e, f') \<longrightarrow>
            extract_audio h l st video_path audio_path audio_format
              = (Inl (Exception (''Error during audio extraction: '' @ str e) e),
                 st\<lparr>fsys := f', open_clips := video # open_clips st,
                     trace := trace st @ [Call_VideoFileClip r,
                                          Call_write_audiofile (clip_file video) ap]\<rparr>))
         \<and> (VideoFileClip l (fsys st) r = Inr video \<and> \<not> has_audio video \<longrightarrow>
            extract_audio h l st video_path audio_path audio_format
              = (Inl (Exception (''Error during audio extraction: ''
                                   @ NoneType_has_no_write_audiofile)
                        (LibError NoneType_has_no_write_audiofile)),
                 st\<lparr>open_clips := video # open_clips st,
                     trace := trace st @ [Call_VideoFileClip r]\<rparr>))
         \<and> (\<forall>err st'. extract_audio h l st video_path audio_path audio_format = (Inl err, st')
              \<longrightarrow> (\<exists>e. err = Exception (''Error during audio extraction: '' @ str e) e))"
  using ex unfolding r ap
  by (auto simp: extract_audio_def Let_def emit_def split: option.splits sum.splits prod.splits)

theorem extraction_failure_wrapped_witness:
  "os_path_exists example_host (fsys example_state) ''/v/broken.mp4''
   \<and> ''/v/broken.mp4'' = resolve_path example_host (fsys example_state) ''/v/broken.mp4''
   \<and> ''/o/out.mp3'' = resolve_path example_host (fsys example_state) ''/o/out.mp3''
   \<and> VideoFileClip example_lib (fsys example_state) ''/v/broken.mp4'' = Inl (LibError ''boom'')
   \<and> extract_audio example_host example_lib example_state ''/v/broken.mp4''
         (Some ''/o/out.mp3'') ''mp3''
       = (Inl (Exception ''Error during audio extraction: boom'' (LibError ''boom'')),
          example_state\<lparr>trace := trace example_state @ [Call_VideoFileClip ''/v/broken.mp4'']\<rparr>)
   \<and> os_path_exists example_host (fsys example_state) ''/v/a.mp4''
   \<and> ''/v/a.mp4'' = resolve_path example_host (fsys example_state) ''/v/a.mp4''
   \<and> ''/readonly/out.mp3'' = resolve_path example_host (fsys example_state) ''/readonly/out.mp3''
   \<and> VideoFileClip example_lib (fsys example_state) ''/v/a.mp4'' = Inr (Clip ''/v/a.mp4'' True)
   \<and> has_audio (Clip ''/v/a.mp4'' True)
   \<and> write_audiofile example_lib (fsys example_state) (Clip ''/v/a.mp4'' True) ''/readonly/out.mp3''
       = (Some (LibError ''Permission denied''), fsys example_state)
   \<and> extract_audio example_host example_lib example_state ''/v/a.mp4''
         (Some ''/readonly/out.mp3'') ''mp3''
       = (Inl (Exception ''Error during audio extraction: Permission denied''
                 (LibError ''Permission denied'')),
          example_state\<lparr>fsys := fsys example_state,
             open_clips := Clip ''/v/a.mp4'' True # open_clips example_state,
             trace := trace example_state @
               [Call_VideoFileClip ''/v/a.mp4'',
                Call_write_audiofile (clip_file (Clip ''/v/a.mp4'' True)) ''/readonly/out.mp3'']\<rparr>)"
proof -
  have 1: "os_path_exists example_host (fsys example_state) ''/v/broken.mp4''" by code_simp
  have 2: "''/v/broken.mp4'' = resolve_path example_host (fsys example_state) ''/v/broken.mp4''"
    by code_simp
  have 3: "''/o/out.mp3'' = (case Some ''/o/out.mp3'' of
                     None \<Rightarrow> path_str (joinpath (parent (Path ''/v/broken.mp4''))
                                        (stem (Path ''/v/broken.mp4'') @ ''.'' @ ''mp3''))
                   | Some a \<Rightarrow> resolve_path example_host (fsys example_state) a)"
    by code_simp
  have 4: "VideoFileClip example_lib (fsys example_state) ''/v/broken.mp4'' = Inl (LibError ''boom'')"
    by (simp add: example_lib_def)
  have 5: "os_path_exists example_host (fsys example_state) ''/v/a.mp4''" by code_simp
  have 6: "''/v/a.mp4'' = resolve_path example_host (fsys example_state) ''/v/a.mp4''"
    by code_simp
  have 7: "''/readonly/out.mp3'' = (case Some ''/readonly/out.mp3'' of
                     None \<Rightarrow> path_str (joinpath (parent (Path ''/v/a.mp4''))
                                        (stem (Path ''/v/a.mp4'') @ ''.'' @ ''mp3''))
                   | Some a \<Rightarrow> resolve_path example_host (fsys example_state) a)"
    by code_simp
  have 8: "VideoFileClip example_lib (fsys example_state) ''/v/a.mp4'' = Inr (Clip ''/v/a.mp4'' True)"
    by (simp add: example_lib_def)
  have 9: "write_audiofile example_lib (fsys example_state) (Clip ''/v/a.mp4'' True) ''/readonly/out.mp3''
       = (Some (LibError ''Permission denied''), fsys example_state)"
    by (simp add: example_lib_def)
  show ?thesis
    using extraction_failure_wrapped [OF 1 2 3, of example_lib "LibError ''boom''"]
      extraction_failure_wrapped [OF 5 6 7, of example_lib "LibError ''Permission denied''"
        "Clip ''/v/a.mp4'' True" "fsys example_state"]
      1 2 3 4 5 6 7 8 9
    by simp
qed

text \<open>
  C9 as stated fails: when opening \<open>/v/broken.mp4\<close> fails with
  \<open>boom\<close>, neither the input path nor the output path occurs in the message of the
  exception raised, nor in the \<open>str\<close> of the failure it carries.
\<close>

theorem extraction_failure_wrapped_counterexample:
  "os_path_exists example_host (fsys example_state)
     (resolve_path example_host (fsys example_state) ''/v/broken.mp4'')
   \<and> VideoFileClip example_lib (fsys example_state)
       (resolve_path example_host (fsys example_state) ''/v/broken.mp4'') = Inl (LibError ''boom'')
   \<and> fst (extract_audio example_host example_lib example_state ''/v/broken.mp4''
            (Some ''/o/out.mp3'') ''mp3'')
       = Inl (Exception ''Error during audio extraction: boom'' (LibError ''boom''))
   \<and> \<not> contains ''Error during audio extraction: boom'' ''/v/broken.mp4''
   \<and> \<not> contains ''Error during audio extraction: boom'' ''/o/out.mp3''
   \<and> \<not> contains (str (LibError ''boom'')) ''/v/broken.mp4''
   \<and> \<not> contains (str (LibError ''boom'')) ''/o/out.mp3''"
  by code_simp

text \<open>
  C4 fails on the code: \<open>video.close()\<close> is reached on the success path only. When
  writing the audio fails, the error is raised with the clip still open; on the same
  host a successful extraction leaves no clip open.
\<close>

theorem extract_audio_leaks_clip:
  "open_clips example_state = []
   \<and> os_path_exists example_host (fsys example_state) ''/v/a.mp4''
   \<and> fst (extract_audio example_host example_lib example_state ''/v/a.mp4''
            (Some ''/readonly/out.mp3'') ''mp3'')
       = Inl (Exception ''Error during audio extraction: Permission denied''
                (LibError ''Permission denied''))
   \<and> open_clips (snd (extract_audio example_host example_lib example_state ''/v/a.mp4''
                        (Some ''/readonly/out.mp3'') ''mp3''))
       = [Clip ''/v/a.mp4'' True]
   \<and> fst (extract_audio example_host example_lib example_state ''/v/a.mp4''
            (Some ''/o/out.mp3'') ''mp3'') = Inr ''/o/out.mp3''
   \<and> open_clips (snd (extract_audio example_host example_lib example_state ''/v/a.mp4''
                        (Some ''/o/out.mp3'') ''mp3'')) = []"
  by code_simp

section \<open>save_transcription\<close>

text \<open>
  C10. For a format tag whose lower-case form is none of \<open>txt\<close>, \<open>json\<close>, \<open>srt\<close>,
  \<open>vtt\<close>, and when the parent directories can be made, \<open>save_transcription\<close> returns
  normally: the directories are made, the line that reports the saving is printed, no
  file is opened and the text files are what they were.
\<close>

theorem unknown_format_writes_nothing:
  assumes fmt: "lower format_type \<notin> {''txt'', ''json'', ''srt'', ''vtt''}"
    and mk: "makedirs l (fsys st) (path_str (parent (Path output_path))) = Inr f1"
  shows "save_transcription l st result output_path format_type
           = (Inr (), st\<lparr>fsys := f1,
                 trace := trace st @ [Call_makedirs (path_str (parent (Path output_path))),
                                      Print_saved output_path]\<rparr>)
         \<and> files (snd (save_transcription l st result output_path format_type)) = files st"
  using fmt mk by (simp add: save_transcription_def Let_def emit_def)

theorem unknown_format_writes_nothing_witness:
  "lower ''BIN'' \<notin> {''txt'', ''json'', ''srt'', ''vtt''}
   \<and> makedirs example_lib (fsys example_state) (path_str (parent (Path ''/out/x.bin'')))
       = Inr ((fsys example_state)(path_str (parent (Path ''/out/x.bin'')) := True))
   \<and> fst (save_transcription example_lib example_state example_result ''/out/x.bin'' ''BIN'')
       = Inr ()
   \<and> trace (snd (save_transcription example_lib example_state example_result ''/out/x.bin''
                    ''BIN''))
       = trace example_state @ [Call_makedirs ''/out'', Print_saved ''/out/x.bin'']
   \<and> files (snd (save_transcription example_lib example_state example_result ''/out/x.bin''
                    ''BIN'')) = files example_state"
proof -
  have 1: "lower ''BIN'' \<notin> {''txt'', ''json'', ''srt'', ''vtt''}" by code_simp
  have 2: "makedirs example_lib (fsys example_state) (path_str (parent (Path ''/out/x.bin'')))
       = Inr ((fsys example_state)(path_str (parent (Path ''/out/x.bin'')) := True))"
    by (simp add: example_lib_def)
  have 3: "path_str (parent (Path ''/out/x.bin'')) = ''/out''" by code_simp
  show ?thesis
    using unknown_format_writes_nothing [OF 1 2, of example_result] 1 2 3
    by simp
qed

subsection \<open>The subtitle loops against the specification\<close>

lemma digit_not_comma:
  assumes "(d::nat) < 10"
  shows "char_of (48 + d) \<noteq> CHR '',''"
proof
  assume eq: "char_of (48 + d) = CHR '',''"
  have "(of_char (char_of (48 + d) :: char) :: nat) = 48 + d"
    using assms by (simp add: of_char_of)
  with eq have "(of_char CHR '','' :: nat) = 48 + d" by simp
  then show False by simp
qed

lemma digits_no_comma: "CHR '','' \<notin> set (digits n)"
proof (induction n rule: digits.induct)
  case (1 n)
  show ?case
  proof (cases "n < 10")
    case True
    then show ?thesis using digit_not_comma [of n] by (subst digits.simps) auto
  next
    case False
    then show ?thesis using 1 digit_not_comma [of "n mod 10"]
      by (subst digits.simps) auto
  qed
qed

lemma comma_to_dot_id: "CHR '','' \<notin> set s \<Longrightarrow> comma_to_dot s = s"
  by (induction s) (auto simp: comma_to_dot_def)

lemma comma_to_dot_append: "comma_to_dot (a @ b) = comma_to_dot a @ comma_to_dot b"
  by (simp add: comma_to_dot_def)

lemma comma_to_dot_simps [simp]:
  "comma_to_dot [] = []"
  "comma_to_dot (c # s) = (if c = CHR '','' then CHR ''.'' else c) # comma_to_dot s"
  by (simp_all add: comma_to_dot_def)

lemma format_0d_no_comma: "CHR '','' \<notin> set (format_0d w x)"
  by (auto simp: format_0d_def zfill_def digits_no_comma)

lemma comma_to_dot_format [simp]: "comma_to_dot (format_0d w x) = format_0d w x"
  by (rule comma_to_dot_id [OF format_0d_no_comma])

lemma comma_to_dot_srt_time: "comma_to_dot (seconds_to_srt_time l t) = seconds_to_vtt_time l t"
  by (simp add: seconds_to_srt_time_def seconds_to_vtt_time_def Let_def comma_to_dot_append)

lemma comma_to_dot_timestamp_line:
  "comma_to_dot (srt_timestamp_line l seg)
     = seconds_to_vtt_time l (seg_start seg) @ '' --> '' @ seconds_to_vtt_time l (seg_end seg)"
  by (simp add: srt_timestamp_line_def comma_to_dot_append comma_to_dot_srt_time)

lemma write_vtt_eq: "write_vtt l buf segs = buf @ concat (map (vtt_block l) segs)"
  by (induction segs arbitrary: buf)
     (simp_all add: Let_def vtt_block_def text_lines_def comma_to_dot_timestamp_line)

lemma write_srt_eq:
  "write_srt l buf (int n) segs
     = buf @ concat (map (\<lambda>k. srt_block l (n + k) (segs ! k)) [0..<length segs])"
proof (induction segs arbitrary: buf n)
  case Nil
  then show ?case by simp
next
  case (Cons seg segs)
  have i: "int n + 1 = int (Suc n)" by simp
  have m: "map (\<lambda>k. srt_block l (n + k) ((seg # segs) ! k)) [0..<length (seg # segs)]
             = srt_block l n seg # map (\<lambda>k. srt_block l (Suc n + k) (segs ! k)) [0..<length segs]"
    by (simp add: upt_conv_Cons map_Suc_upt [symmetric] del: upt_Suc)
  show ?case
    unfolding m
    by (simp add: Let_def i Cons.IH srt_block_def text_lines_def srt_timestamp_line_def
          del: of_nat_Suc)
qed

lemma write_srt_spec: "write_srt l [] 1 segs = srt_spec l segs"
  using write_srt_eq [of l "[]" 1 segs] by (simp add: srt_spec_def)

lemma char_of_48 [simp]: "char_of (48::nat) = CHR ''0''"
  by code_simp

lemma digits_small: "n < 10 \<Longrightarrow> digits n = [char_of (48 + n)]"
  by (subst digits.simps) simp

lemma digits_two: "10 \<le> n \<Longrightarrow> n < 100 \<Longrightarrow> digits n = two_digits n"
  by (subst digits.simps) (simp add: digits_small two_digits_def)

lemma format_0d_two: "0 \<le> x \<Longrightarrow> x < 100 \<Longrightarrow> format_0d 2 x = two_digits (nat x)"
proof -
  assume a: "0 \<le> x" "x < 100"
  show ?thesis
  proof (cases "nat x < 10")
    case True
    then show ?thesis using a by (simp add: format_0d_def zfill_def digits_small two_digits_def)
  next
    case False
    then have "10 \<le> nat x" "nat x < 100" using a by auto
    then show ?thesis using a by (simp add: format_0d_def zfill_def digits_two two_digits_def)
  qed
qed

lemma hundred_split:
  fixes n :: nat
  shows "n div 10 div 10 = n div 100"
    and "n mod 100 div 10 = n div 10 mod 10"
    and "n mod 100 mod 10 = n mod 10"
proof -
  have m: "n mod 100 = 10 * (n div 10 mod 10) + n mod 10"
    using mod_mult2_eq [of n 10 10] by simp
  show "n div 10 div 10 = n div 100"
    using div_mult2_eq [of n 10 10] by simp
  show "n mod 100 div 10 = n div 10 mod 10"
    unfolding m by simp
  show "n mod 100 mod 10 = n mod 10"
    unfolding m by simp
qed

lemma digits_three:
  assumes "100 \<le> n" "n < 1000"
  shows "digits n = three_digits n"
proof -
  have 1: "10 \<le> n div 10" "n div 10 < 100" using assms by auto
  have "digits n = digits (n div 10) @ [char_of (48 + n mod 10)]"
    using assms by (subst digits.simps) simp
  also have "\<dots> = two_digits (n div 10) @ [char_of (48 + n mod 10)]"
    by (simp only: digits_two [OF 1])
  also have "\<dots> = three_digits n"
    by (simp only: two_digits_def three_digits_def hundred_split append.simps)
  finally show ?thesis .
qed

lemma format_0d_three: "0 \<le> x \<Longrightarrow> x < 1000 \<Longrightarrow> format_0d 3 x = three_digits (nat x)"
proof -
  assume a: "0 \<le> x" "x < 1000"
  consider "nat x < 10" | "10 \<le> nat x" "nat x < 100" | "100 \<le> nat x" "nat x < 1000"
    using a by linarith
  then show ?thesis
  proof cases
    case 1
    then show ?thesis using a
      by (simp add: format_0d_def zfill_def digits_small two_digits_def three_digits_def
            numeral_2_eq_2)
  next
    case 2
    then show ?thesis using a
      by (simp add: format_0d_def zfill_def digits_two two_digits_def three_digits_def)
  next
    case 3
    then show ?thesis using a
      by (simp add: format_0d_def zfill_def digits_three three_digits_def two_digits_def)
  qed
qed

lemma time_patterns:
  assumes "fields_in_range (time_fields l t)"
  shows "seconds_to_srt_time l t = clock_pattern CHR '','' (time_fields l t)"
    and "seconds_to_vtt_time l t = clock_pattern CHR ''.'' (time_fields l t)"
  using assms
  by (simp_all add: fields_in_range_def time_fields_def seconds_to_srt_time_def
        seconds_to_vtt_time_def clock_pattern_def Let_def format_0d_two format_0d_three)

text \<open>
  C6. When \<open>save_transcription\<close> returns normally, the file written for \<open>srt\<close> is one
  block per segment in order (the index from 1, the time stamp line, the stripped text,
  an empty line), and the file written for \<open>vtt\<close> is the header \<open>WEBVTT\<close>, an empty
  line, and the same blocks without the index line and with \<open>.\<close> for \<open>,\<close> in the time
  stamp line. A time whose four numbers are in range (hours below 100) is printed as
  \<open>HH:MM:SS,mmm\<close>, and as \<open>HH:MM:SS.mmm\<close> for \<open>vtt\<close>.
\<close>

theorem subtitle_formats:
  assumes res: "save_transcription l st result output_path format_type = (Inr (), st')"
  shows "(lower format_type = ''srt'' \<longrightarrow>
            files st' output_path = Some (srt_spec l (segments result)))
         \<and> (lower format_type = ''vtt'' \<longrightarrow>
            files st' output_path = Some (vtt_spec l (segments result)))
         \<and> (fields_in_range (time_fields l t) \<longrightarrow>
            seconds_to_srt_time l t = clock_pattern CHR '','' (time_fields l t)
            \<and> seconds_to_vtt_time l t = clock_pattern CHR ''.'' (time_fields l t))"
proof (intro conjI impI)
  assume "lower format_type = ''srt''"
  with res show "files st' output_path = Some (srt_spec l (segments result))"
    by (auto simp: save_transcription_def write_text_def Let_def emit_def write_srt_spec
             split: sum.splits prod.splits option.splits)
next
  assume "lower format_type = ''vtt''"
  with res show "files st' output_path = Some (vtt_spec l (segments result))"
    by (auto simp: save_transcription_def write_text_def Let_def emit_def write_vtt_eq
               vtt_spec_def text_lines_def
             split: sum.splits prod.splits option.splits)
qed (simp_all add: time_patterns)

theorem subtitle_formats_witness:
  "fst (save_transcription example_lib example_state example_result ''/out/x.srt'' ''SRT'')
     = Inr ()
   \<and> lower ''SRT'' = ''srt''
   \<and> files (snd (save_transcription example_lib example_state example_result
                    ''/out/x.srt'' ''SRT'')) ''/out/x.srt''
       = Some (text_lines [''1'', ''00:00:00,000 --> 00:00:01,500'', ''hello'', [],
                           ''2'', ''00:00:01,500 --> 02:01:05,000'', ''world, again'', []])
   \<and> fst (save_transcription example_lib example_state example_result ''/out/x.vtt'' ''vtt'')
     = Inr ()
   \<and> lower ''vtt'' = ''vtt''
   \<and> files (snd (save_transcription example_lib example_state example_result
                    ''/out/x.vtt'' ''vtt'')) ''/out/x.vtt''
       = Some (text_lines [''WEBVTT'', [],
                           ''00:00:00.000 --> 00:00:01.500'', ''hello'', [],
                           ''00:00:01.500 --> 02:01:05.000'', ''world, again'', []])
   \<and> fields_in_range (time_fields example_lib (3 / 2))
   \<and> seconds_to_srt_time example_lib (3 / 2) = ''00:00:01,500''
   \<and> seconds_to_vtt_time example_lib (3 / 2) = ''00:00:01.500''"
proof -
  let ?S = "save_transcription example_lib example_state example_result ''/out/x.srt'' ''SRT''"
  let ?V = "save_transcription example_lib example_state example_result ''/out/x.vtt'' ''vtt''"
  have s0: "fst ?S = Inr ()" by code_simp
  then have s1: "?S = (Inr (), snd ?S)" by (metis prod.collapse)
  have v0: "fst ?V = Inr ()" by code_simp
  then have v1: "?V = (Inr (), snd ?V)" by (metis prod.collapse)
  have l1: "lower ''SRT'' = ''srt''" by code_simp
  have l2: "lower ''vtt'' = ''vtt''" by code_simp
  have e1: "srt_spec example_lib (segments example_result)
      = text_lines [''1'', ''00:00:00,000 --> 00:00:01,500'', ''hello'', [],
                    ''2'', ''00:00:01,500 --> 02:01:05,000'', ''world, again'', []]"
    by code_simp
  have e2: "vtt_spec example_lib (segments example_result)
      = text_lines [''WEBVTT'', [],
                    ''00:00:00.000 --> 00:00:01.500'', ''hello'', [],
                    ''00:00:01.500 --> 02:01:05.000'', ''world, again'', []]"
    by code_simp
  have r: "fields_in_range (time_fields example_lib (3 / 2))" by code_simp
  have c1: "clock_pattern CHR '','' (time_fields example_lib (3 / 2)) = ''00:00:01,500''"
    by code_simp
  have c2: "clock_pattern CHR ''.'' (time_fields example_lib (3 / 2)) = ''00:00:01.500''"
    by code_simp
  show ?thesis
    using subtitle_formats [OF s1, of "3 / 2"] subtitle_formats [OF v1, of "3 / 2"]
      s0 v0 l1 l2 e1 e2 r c1 c2
    by simp
qed

section \<open>Batches tolerate failures\<close>

lemma failure_lines_append: "failure_lines (xs @ ys) = failure_lines xs @ failure_lines ys"
  by (induction xs rule: failure_lines.induct) simp_all

lemma extract_audio_failure_lines:
  "failure_lines (trace (snd (extract_audio h l st v a f))) = failure_lines (trace st)"
  by (auto simp: extract_audio_def Let_def failure_lines_append
           split: sum.splits prod.splits option.splits)

lemma write_text_failure_lines:
  "failure_lines (trace (snd (write_text l st p c))) = failure_lines (trace st)"
  by (auto simp: write_text_def Let_def failure_lines_append split: sum.splits)

lemma save_transcription_failure_lines:
  "failure_lines (trace (snd (save_transcription l st r p f))) = failure_lines (trace st)"
proof -
  have w: "\<And>s c x y. write_text l s p c = (x, y) \<Longrightarrow>
             failure_lines (trace y) = failure_lines (trace s)"
    using write_text_failure_lines by (metis snd_conv)
  show ?thesis
    by (auto simp: save_transcription_def Let_def failure_lines_append
             split: sum.splits prod.splits option.splits dest!: w)
qed

lemma transcribe_audio_failure_lines:
  "failure_lines (trace (snd (transcribe_audio h l st a g f))) = failure_lines (trace st)"
  by (auto simp: transcribe_audio_def load_model_lazy_def Let_def failure_lines_append
           split: sum.splits prod.splits option.splits if_splits)

lemma transcribe_and_save_failure_lines:
  "failure_lines (trace (snd (transcribe_and_save h l st a p g f))) = failure_lines (trace st)"
proof -
  have t: "\<And>x y. transcribe_audio h l st a g f = (x, y) \<Longrightarrow>
             failure_lines (trace y) = failure_lines (trace st)"
    using transcribe_audio_failure_lines by (metis snd_conv)
  have s: "\<And>s r q x y. save_transcription l s r q f = (x, y) \<Longrightarrow>
             failure_lines (trace y) = failure_lines (trace s)"
    using save_transcription_failure_lines by (metis snd_conv)
  show ?thesis
    by (auto simp: transcribe_and_save_def Let_def
             split: sum.splits prod.splits option.splits dest!: s dest: t)
qed

lemma map_fst_outcomes: "map fst (outcomes step st fs) = fs"
  by (induction fs arbitrary: st) (auto split: prod.splits sum.splits)

lemma successes_failures: "length (successes os) + length (failures os) = length os"
  by (induction os rule: successes.induct) simp_all

lemma convert_loop_outcomes:
  "fst (convert_loop h l od fmt acc st fs)
     = acc @ successes (outcomes (convert_one h l od fmt) st fs)"
  by (induction fs arbitrary: acc st)
     (auto simp: convert_one_def Let_def split: prod.splits sum.splits)

lemma convert_loop_failure_lines:
  "failure_lines (trace (snd (convert_loop h l od fmt acc st fs)))
     = failure_lines (trace st) @ failures (outcomes (convert_one h l od fmt) st fs)"
proof (induction fs arbitrary: acc st)
  case Nil
  then show ?case by simp
next
  case (Cons x fs)
  obtain r st1 where e: "convert_one h l od fmt st x = (r, st1)"
    by (cases "convert_one h l od fmt st x")
  then have "snd (convert_one h l od fmt st x) = st1" by simp
  then have t: "failure_lines (trace st1) = failure_lines (trace st)"
    unfolding convert_one_def using extract_audio_failure_lines by blast
  show ?case
    using e e [unfolded convert_one_def] t Cons.IH
    by (cases r) (simp_all add: Let_def failure_lines_append)
qed

lemma transcribe_loop_outcomes:
  "fst (transcribe_loop h l od g fmt acc st fs)
     = acc @ successes (outcomes (transcribe_one h l od g fmt) st fs)"
  by (induction fs arbitrary: acc st)
     (auto simp: transcribe_one_def Let_def split: prod.splits sum.splits)

lemma transcribe_loop_failure_lines:
  "failure_lines (trace (snd (transcribe_loop h l od g fmt acc st fs)))
     = failure_lines (trace st) @ failures (outcomes (transcribe_one h l od g fmt) st fs)"
proof (induction fs arbitrary: acc st)
  case Nil
  then show ?case by simp
next
  case (Cons x fs)
  obtain r st1 where e: "transcribe_one h l od g fmt st x = (r, st1)"
    by (cases "transcribe_one h l od g fmt st x")
  then have "snd (transcribe_one h l od g fmt st x) = st1" by simp
  then have t: "failure_lines (trace st1) = failure_lines (trace st)"
    unfolding transcribe_one_def using transcribe_and_save_failure_lines by blast
  show ?case
    using e e [unfolded transcribe_one_def] t Cons.IH
    by (cases r) (simp_all add: Let_def failure_lines_append)
qed

text \<open>
  C2. Once the directory exists, the output directory is made and the directory is
  listed, a batch returns normally whatever happens to its files: the value returned is
  the list of the output paths of the files whose processing succeeded, in the order of
  the listing; every matching file has an outcome (a failure does not stop the loop); the
  files that succeeded and those that failed are all the files; each failure has its line
  on the console, in order. So three matching files with one failure give a list of two
  entries. This holds of \<open>batch_convert\<close> (with and without an output directory) and of
  \<open>batch_transcribe\<close> (whose default output directory is \<open>transcriptions\<close> under the
  input directory).
\<close>

theorem batch_failure_tolerance:
  assumes ex: "os_path_exists h (fsys st) directory"
    and mk: "makedirs l (fsys st) od = Inr f1"
    and ls: "listdir l f1 directory = Inr names"
    and ls0: "listdir l (fsys st) directory = Inr names0"
    and st1: "st1 = emit (Call_listdir directory) ((emit (Call_makedirs od) st)\<lparr>fsys := f1\<rparr>)"
    and oc: "oc = outcomes (convert_one h l od fmt) st1
                    (matching_files video_extensions directory names)"
    and ot: "ot = outcomes (transcribe_one h l od hint fmt) st1
                    (matching_files audio_extensions directory names)"
    and oc0: "oc0 = outcomes (convert_one h l directory fmt) (emit (Call_listdir directory) st)
                      (matching_files video_extensions directory names0)"
  shows "fst (batch_convert h l st directory (Some od) fmt) = Inr (successes oc)
         \<and> fst (batch_convert h l st directory None fmt) = Inr (successes oc0)
         \<and> fst (batch_transcribe h l st directory (Some od) hint fmt) = Inr (successes ot)
         \<and> batch_transcribe h l st directory None hint fmt
             = batch_transcribe h l st directory
                 (Some (os_path_join directory ''transcriptions'')) hint fmt
         \<and> map fst oc = matching_files video_extensions directory names
         \<and> map fst oc0 = matching_files video_extensions directory names0
         \<and> map fst ot = matching_files audio_extensions directory names
         \<and> length (successes oc) + length (failures oc) = length oc
         \<and> length (successes oc0) + length (failures oc0) = length oc0
         \<and> length (successes ot) + length (failures ot) = length ot
         \<and> failure_lines (trace (snd (batch_convert h l st directory (Some od) fmt)))
             = failure_lines (trace st) @ failures oc
         \<and> failure_lines (trace (snd (batch_convert h l st directory None fmt)))
             = failure_lines (trace st) @ failures oc0
         \<and> failure_lines (trace (snd (batch_transcribe h l st directory (Some od) hint fmt)))
             = failure_lines (trace st) @ failures ot
         \<and> (length oc = 3 \<and> length (failures oc) = 1 \<longrightarrow> length (successes oc) = 2)
         \<and> (length oc0 = 3 \<and> length (failures oc0) = 1 \<longrightarrow> length (successes oc0) = 2)
         \<and> (length ot = 3 \<and> length (failures ot) = 1 \<longrightarrow> length (successes ot) = 2)"
proof -
  have bc: "batch_convert h l st directory (Some od) fmt
              = (Inr (fst (convert_loop h l od fmt [] st1
                             (matching_files video_extensions directory names))),
                 snd (convert_loop h l od fmt [] st1
                        (matching_files video_extensions directory names)))"
    using ex mk ls unfolding st1
    by (simp add: batch_convert_def Let_def matching_files_def case_prod_unfold)
  have bc0: "batch_convert h l st directory None fmt
              = (Inr (fst (convert_loop h l directory fmt [] (emit (Call_listdir directory) st)
                             (matching_files video_extensions directory names0))),
                 snd (convert_loop h l directory fmt [] (emit (Call_listdir directory) st)
                        (matching_files video_extensions directory names0)))"
    using ex ls0
    by (simp add: batch_convert_def Let_def matching_files_def case_prod_unfold)
  have bt: "batch_transcribe h l st directory (Some od) hint fmt
              = (Inr (fst (transcribe_loop h l od hint fmt [] st1
                             (matching_files audio_extensions directory names))),
                 snd (transcribe_loop h l od hint fmt [] st1
                        (matching_files audio_extensions directory names)))"
    using ex mk ls unfolding st1
    by (simp add: batch_transcribe_def Let_def matching_files_def case_prod_unfold)
  have bn: "batch_transcribe h l st directory None hint fmt
             = batch_transcribe h l st directory
                 (Some (os_path_join directory ''transcriptions'')) hint fmt"
    by (simp add: batch_transcribe_def)
  have t1: "failure_lines (trace st1) = failure_lines (trace st)"
    unfolding st1 by (simp add: failure_lines_append)
  have t0: "failure_lines (trace (emit (Call_listdir directory) st)) = failure_lines (trace st)"
    by (simp add: failure_lines_append)
  have n: "length (successes oc) + length (failures oc) = length oc"
    "length (successes oc0) + length (failures oc0) = length oc0"
    "length (successes ot) + length (failures ot) = length ot"
    by (rule successes_failures)+
  show ?thesis
    unfolding bc bc0 bt bn
    using n
    by (simp add: convert_loop_outcomes transcribe_loop_outcomes convert_loop_failure_lines
          transcribe_loop_failure_lines t1 t0 oc ot oc0 map_fst_outcomes
          failure_lines_append)
qed

theorem batch_failure_tolerance_witness:
  "os_path_exists example_host (fsys example_state) ''/v''
   \<and> fst (batch_convert example_host example_lib example_state ''/v'' (Some ''/o'') ''mp3'')
       = Inr [''/o/a.mp3'', ''/o/c.mp3'']
   \<and> failure_lines (trace (snd (batch_convert example_host example_lib example_state ''/v''
                                     (Some ''/o'') ''mp3'')))
       = [(''/v/broken.mp4'', ''Error during audio extraction: boom'')]
   \<and> fst (batch_convert example_host example_lib example_state ''/v'' None ''mp3'')
       = Inr [''/v/a.mp3'', ''/v/c.mp3'']
   \<and> os_path_exists example_host (fsys example_state) ''/a''
   \<and> fst (batch_transcribe example_host example_lib example_state ''/a'' (Some ''/t'') None ''txt'')
       = Inr [''/t/one_transcription.txt'', ''/t/two_transcription.txt'']
   \<and> failure_lines (trace (snd (batch_transcribe example_host example_lib example_state ''/a''
                                     (Some ''/t'') None ''txt'')))
       = [(''/a/bad.mp3'', ''Error during transcription: bad audio'')]"
proof -
  have v1: "os_path_exists example_host (fsys example_state) ''/v''" by code_simp
  have v2: "makedirs example_lib (fsys example_state) ''/o'' = Inr ((fsys example_state)(''/o'' := True))"
    by (simp add: example_lib_def)
  have v3: "listdir example_lib ((fsys example_state)(''/o'' := True)) ''/v'' = Inr [''a.mp4'', ''broken.mp4'', ''notes.txt'', ''c.MP4'']"
    by (simp add: example_lib_def)
  have v4: "listdir example_lib (fsys example_state) ''/v'' = Inr [''a.mp4'', ''broken.mp4'', ''notes.txt'', ''c.MP4'']"
    by (simp add: example_lib_def)
  have a1: "os_path_exists example_host (fsys example_state) ''/a''" by code_simp
  have a2: "makedirs example_lib (fsys example_state) ''/t'' = Inr ((fsys example_state)(''/t'' := True))"
    by (simp add: example_lib_def)
  have a3: "listdir example_lib ((fsys example_state)(''/t'' := True)) ''/a'' = Inr [''one.mp3'', ''bad.mp3'', ''two.wav'']"
    by (simp add: example_lib_def)
  have a4: "listdir example_lib (fsys example_state) ''/a'' = Inr [''one.mp3'', ''bad.mp3'', ''two.wav'']"
    by (simp add: example_lib_def)
  have e1: "successes (outcomes (convert_one example_host example_lib ''/o'' ''mp3'') (emit (Call_listdir ''/v'') ((emit (Call_makedirs ''/o'') example_state)\<lparr>fsys := (fsys example_state)(''/o'' := True)\<rparr>)) (matching_files video_extensions ''/v'' [''a.mp4'', ''broken.mp4'', ''notes.txt'', ''c.MP4''])) = [''/o/a.mp3'', ''/o/c.mp3'']" by code_simp
  have e2: "failures (outcomes (convert_one example_host example_lib ''/o'' ''mp3'') (emit (Call_listdir ''/v'') ((emit (Call_makedirs ''/o'') example_state)\<lparr>fsys := (fsys example_state)(''/o'' := True)\<rparr>)) (matching_files video_extensions ''/v'' [''a.mp4'', ''broken.mp4'', ''notes.txt'', ''c.MP4''])) = [(''/v/broken.mp4'', ''Error during audio extraction: boom'')]"
    by code_simp
  have e3: "successes (outcomes (convert_one example_host example_lib ''/v'' ''mp3'') (emit (Call_listdir ''/v'') example_state) (matching_files video_extensions ''/v'' [''a.mp4'', ''broken.mp4'', ''notes.txt'', ''c.MP4''])) = [''/v/a.mp3'', ''/v/c.mp3'']" by code_simp
  have e4: "successes (outcomes (transcribe_one example_host example_lib ''/t'' None ''txt'') (emit (Call_listdir ''/a'') ((emit (Call_makedirs ''/t'') example_state)\<lparr>fsys := (fsys example_state)(''/t'' := True)\<rparr>)) (matching_files audio_extensions ''/a'' [''one.mp3'', ''bad.mp3'', ''two.wav''])) = [''/t/one_transcription.txt'', ''/t/two_transcription.txt'']"
    by code_simp
  have e5: "failures (outcomes (transcribe_one example_host example_lib ''/t'' None ''txt'') (emit (Call_listdir ''/a'') ((emit (Call_makedirs ''/t'') example_state)\<lparr>fsys := (fsys example_state)(''/t'' := True)\<rparr>)) (matching_files audio_extensions ''/a'' [''one.mp3'', ''bad.mp3'', ''two.wav''])) = [(''/a/bad.mp3'', ''Error during transcription: bad audio'')]"
    by code_simp
  have e6: "failure_lines (trace example_state) = []" by code_simp
  note V = batch_failure_tolerance [where fmt="''mp3''" and hint=None, OF v1 v2 v3 v4 refl refl refl refl]
  note A = batch_failure_tolerance [where fmt="''txt''" and hint=None, OF a1 a2 a3 a4 refl refl refl refl]
  have "fst (batch_convert example_host example_lib example_state ''/v'' (Some ''/o'') ''mp3'')
       = Inr [''/o/a.mp3'', ''/o/c.mp3'']"
    using V unfolding e1 by blast
  moreover have "failure_lines (trace (snd (batch_convert example_host example_lib example_state
                    ''/v'' (Some ''/o'') ''mp3'')))
       = [(''/v/broken.mp4'', ''Error during audio extraction: boom'')]"
    using V unfolding e2 e6 by simp
  moreover have "fst (batch_convert example_host example_lib example_state ''/v'' None ''mp3'')
       = Inr [''/v/a.mp3'', ''/v/c.mp3'']"
    using V unfolding e3 by blast
  moreover have "fst (batch_transcribe example_host example_lib example_state ''/a'' (Some ''/t'')
                        None ''txt'')
       = Inr [''/t/one_transcription.txt'', ''/t/two_transcription.txt'']"
    using A unfolding e4 by blast
  moreover have "failure_lines (trace (snd (batch_transcribe example_host example_lib
                    example_state ''/a'' (Some ''/t'') None ''txt'')))
       = [(''/a/bad.mp3'', ''Error during transcription: bad audio'')]"
    using A unfolding e5 e6 by simp
  ultimately show ?thesis using v1 a1 by blast
qed

section \<open>Time stamps in float arithmetic\<close>

subsection \<open>Rounding to binary64\<close>

lemma bitlen_bounds:
  "0 < n \<Longrightarrow> 0 < bitlen n \<and> 2 ^ nat (bitlen n - 1) \<le> n \<and> n < 2 ^ nat (bitlen n)"
proof (induction n rule: bitlen.induct)
  case (1 n)
  show ?case
  proof (cases "n div 2 = 0")
    case True
    with 1 have n: "n = 1" by presburger
    have "bitlen 1 = 1" by (simp add: bitlen.simps [of 1] bitlen.simps [of 0])
    then show ?thesis unfolding n by simp
  next
    case False
    with 1 have p: "0 < n div 2" by presburger
    let ?k = "bitlen (n div 2)"
    from 1 p have ih: "0 < ?k" "2 ^ nat (?k - 1) \<le> n div 2" "n div 2 < 2 ^ nat ?k" by auto
    have b: "bitlen n = ?k + 1" using 1 by (simp add: bitlen.simps [of n])
    have e: "(2::int) ^ nat ?k = 2 * 2 ^ nat (?k - 1)"
      using ih(1) by (metis Suc_nat_eq_nat_zadd1 add.commute diff_add_cancel diff_ge_0_iff_ge
          int_one_le_iff_zero_less power_Suc)
    have "2 ^ nat ?k \<le> n" using ih(2) e by presburger
    moreover have "n < 2 * 2 ^ nat ?k" using ih(3) by presburger
    moreover have "(2::int) ^ nat (?k + 1) = 2 * 2 ^ nat ?k"
      using ih(1) by (simp add: nat_add_distrib)
    ultimately show ?thesis using ih(1) b by simp
  qed
qed

lemma rne_of_int [simp]: "rne (of_int k) = k"
  by (simp add: rne_def)

lemma rne_error: "\<bar>of_int (rne t) - t\<bar> \<le> 1 / 2"
proof -
  have "0 \<le> t - of_int \<lfloor>t\<rfloor>" "t - of_int \<lfloor>t\<rfloor> < 1" by linarith+
  then show ?thesis by (auto simp: rne_def Let_def) 
qed

lemma rne_nonneg: "0 \<le> t \<Longrightarrow> 0 \<le> rne t"
  by (auto simp: rne_def Let_def)

lemma two_powi_nat: "0 \<le> k \<Longrightarrow> (2::rat) ^ nat k = 2 powi k"
  by (simp add: power_int_def)

lemma two_powi_pos [simp]: "0 < (2::rat) powi k"
  by (simp add: zero_less_power_int)

lemma two_powi_Suc: "(2::rat) powi (k + 1) = 2 * 2 powi k"
  by (simp add: power_int_add)

lemma two_powi_mono: "k \<le> m \<Longrightarrow> (2::rat) powi k \<le> 2 powi m"
  by (rule power_int_increasing) simp_all

lemma two_powi_less_cancel: "(2::rat) powi k < 2 powi m \<Longrightarrow> k < m"
  using two_powi_mono [of m k] by (cases "k < m") auto

lemma bitlen_bounds_rat:
  assumes "0 < n"
  shows "2 powi (bitlen n - 1) \<le> (of_int n :: rat)" "(of_int n :: rat) < 2 powi bitlen n"
proof -
  from bitlen_bounds [OF assms] have b: "0 < bitlen n" "2 ^ nat (bitlen n - 1) \<le> n"
    "n < 2 ^ nat (bitlen n)" by auto
  have "(of_int (2 ^ nat (bitlen n - 1)) :: rat) \<le> of_int n" using b(2) by (simp only: of_int_le_iff)
  then show "2 powi (bitlen n - 1) \<le> (of_int n :: rat)"
    using b(1) by (simp add: two_powi_nat)
  have "(of_int n :: rat) < of_int (2 ^ nat (bitlen n))" using b(3) by (simp only: of_int_less_iff)
  then show "(of_int n :: rat) < 2 powi bitlen n"
    using b(1) by (simp add: two_powi_nat)
qed

lemma ilog2_bounds:
  assumes "0 < x"
  shows "2 powi ilog2 x \<le> x" "x < 2 powi (ilog2 x + 1)"
proof -
  obtain p q where pq: "quotient_of x = (p, q)" by (cases "quotient_of x")
  then have q: "0 < q" and x: "x = of_int p / of_int q"
    by (auto dest: quotient_of_denom_pos quotient_of_div)
  have p: "0 < p" using assms q unfolding x by (simp add: zero_less_divide_iff)
  let ?P = "of_int p :: rat" and ?Q = "of_int q :: rat"
  let ?d = "bitlen p - bitlen q"
  have Q: "0 < ?Q" using q by simp
  note bp = bitlen_bounds_rat [OF p] and bq = bitlen_bounds_rat [OF q]
  have up: "x < 2 powi (?d + 1)"
  proof -
    have "x * 2 powi (bitlen q - 1) \<le> x * ?Q"
      using assms bq(1) by (simp add: mult_left_mono)
    also have "\<dots> = ?P" using Q unfolding x by simp
    also have "\<dots> < 2 powi bitlen p" by (rule bp(2))
    finally have "x < 2 powi bitlen p / 2 powi (bitlen q - 1)"
      by (simp add: pos_less_divide_eq)
    also have "\<dots> = 2 powi (?d + 1)"
      by (simp add: power_int_diff [symmetric] algebra_simps)
    finally show ?thesis .
  qed
  have lo: "2 powi (?d - 1) < x"
  proof -
    have "2 powi (bitlen p - 1) \<le> ?P" by (rule bp(1))
    also have "\<dots> = x * ?Q" using Q unfolding x by simp
    also have "\<dots> < x * 2 powi bitlen q"
      using assms bq(2) by (simp add: mult_strict_left_mono)
    finally have "2 powi (bitlen p - 1) / 2 powi bitlen q < x"
      by (simp add: pos_divide_less_eq)
    moreover have "2 powi (bitlen p - 1) / 2 powi bitlen q = (2::rat) powi (?d - 1)"
      by (simp add: power_int_diff [symmetric] algebra_simps)
    ultimately show ?thesis by simp
  qed
  have il: "ilog2 x = (if 2 powi ?d \<le> x then ?d else ?d - 1)"
    by (simp add: ilog2_def pq Let_def)
  show "2 powi ilog2 x \<le> x" using lo unfolding il by auto
  show "x < 2 powi (ilog2 x + 1)" using up unfolding il by (auto simp: not_le)
qed

lemma round64_nonneg: "0 \<le> x \<Longrightarrow> 0 \<le> round64 x"
  by (auto simp: round64_def Let_def intro!: mult_nonneg_nonneg rne_nonneg divide_nonneg_pos
           simp: less_le)

lemma round64_pos_eq:
  assumes "2 powi (- 1022) \<le> x"
  shows "round64 x = of_int (rne (x / 2 powi (ilog2 x - 52))) * 2 powi (ilog2 x - 52)"
proof -
  have x: "0 < x" using assms two_powi_pos [of "- 1022"] by linarith
  have "2 powi (- 1022) < (2::rat) powi (ilog2 x + 1)"
    using assms ilog2_bounds(2) [OF x] by linarith
  then have "- 1022 < ilog2 x + 1" by (rule two_powi_less_cancel)
  then have "max (ilog2 x) (- 1022) = ilog2 x" by simp
  then show ?thesis using x by (simp add: round64_def Let_def)
qed

lemma round64_error:
  assumes "2 powi (- 1022) \<le> x"
  shows "\<bar>round64 x - x\<bar> \<le> x / 2 ^ 53"
proof -
  have x: "0 < x" using assms two_powi_pos [of "- 1022"] by linarith
  let ?u = "(2::rat) powi (ilog2 x - 52)"
  have u: "0 < ?u" by simp
  have "round64 x - x = (of_int (rne (x / ?u)) - x / ?u) * ?u"
    using u by (simp add: round64_pos_eq [OF assms] algebra_simps)
  then have "\<bar>round64 x - x\<bar> = \<bar>of_int (rne (x / ?u)) - x / ?u\<bar> * ?u"
    using u by (simp add: abs_mult)
  also have "\<dots> \<le> 1 / 2 * ?u"
    using rne_error [of "x / ?u"] u by (intro mult_right_mono) auto
  also have "?u = 2 powi ilog2 x / 2 ^ 52"
    by (simp add: power_int_diff)
  also have "1 / 2 * (2 powi ilog2 x / 2 ^ 52) \<le> 1 / 2 * (x / 2 ^ 52)"
    using ilog2_bounds(1) [OF x] by (simp add: divide_right_mono)
  also have "\<dots> = x / 2 ^ 53" by simp
  finally show ?thesis .
qed

lemma round64_int:
  assumes "0 \<le> n" "n < 2 ^ 53"
  shows "round64 (of_int n) = of_int n"
proof (cases "n = 0")
  case True
  then show ?thesis by (simp add: round64_def)
next
  case False
  with assms have n: "1 \<le> n" by simp
  let ?x = "of_int n :: rat"
  let ?e = "ilog2 ?x"
  have x: "0 < ?x" using n by simp
  have "(2::rat) powi ?e \<le> ?x" by (rule ilog2_bounds(1) [OF x])
  also have "?x < of_int (2 ^ 53)" using assms(2) by (simp only: of_int_less_iff)
  also have "(of_int (2 ^ 53) :: rat) = 2 powi 53" by simp
  finally have e1: "?e < 53" by (rule two_powi_less_cancel)
  have "(2::rat) powi 0 \<le> ?x" using n by simp
  also have "?x < 2 powi (?e + 1)" by (rule ilog2_bounds(2) [OF x])
  finally have e0: "0 \<le> ?e" using two_powi_less_cancel [of 0 "?e + 1"] by simp
  have le: "2 powi (- 1022) \<le> ?x"
    using two_powi_mono [of "- 1022" 0] n by (simp add: order_trans)
  have u: "(2::rat) powi (?e - 52) = 1 / 2 ^ nat (52 - ?e)"
    using e1 by (simp add: power_int_def field_simps)
  have "?x / 2 powi (?e - 52) = of_int (n * 2 ^ nat (52 - ?e))"
    unfolding u by simp
  then have "rne (?x / 2 powi (?e - 52)) = n * 2 ^ nat (52 - ?e)"
    by (simp only: rne_of_int)
  then show ?thesis
    unfolding round64_pos_eq [OF le] u by simp
qed

subsection \<open>The float operations of the time stamps are exact where it matters\<close>

lemma floor_divide_int:
  fixes s :: rat
  assumes "0 < k"
  shows "\<lfloor>s / of_int k\<rfloor> = \<lfloor>s\<rfloor> div k"
proof (rule floor_unique)
  let ?n = "\<lfloor>s\<rfloor>"
  have k: "0 < (of_int k :: rat)" using assms by simp
  have d: "?n = k * (?n div k) + ?n mod k" by simp
  have m: "0 \<le> ?n mod k" "?n mod k < k" using assms by simp_all
  have "k * (?n div k) \<le> ?n" using m(1) d by linarith
  then have "(of_int (k * (?n div k)) :: rat) \<le> of_int ?n"
    by (simp only: of_int_le_iff)
  also have "\<dots> \<le> s" by simp
  finally show "of_int (?n div k) \<le> s / of_int k"
    using k by (simp add: pos_le_divide_eq mult.commute)
  have "k * (?n div k + 1) = k * (?n div k) + k" by (simp add: algebra_simps)
  then have "?n + 1 \<le> k * (?n div k + 1)" using m(2) d by linarith
  then have "(of_int (?n + 1) :: rat) \<le> of_int (k * (?n div k + 1))"
    by (simp only: of_int_le_iff)
  moreover have "s < of_int (?n + 1)" by simp linarith
  ultimately have "s < of_int (k * (?n div k + 1))" by linarith
  then show "s / of_int k < of_int (?n div k) + 1"
    using k by (simp add: pos_divide_less_eq mult.commute)
qed

lemma py_mod_exact:
  assumes "0 \<le> s" "0 < k"
  shows "py_mod s (of_int k) = s - of_int (k * (\<lfloor>s\<rfloor> div k))"
    and "\<lfloor>py_mod s (of_int k)\<rfloor> = \<lfloor>s\<rfloor> mod k"
    and "0 \<le> py_mod s (of_int k)"
proof -
  let ?c = "of_int k :: rat"
  have c: "0 < ?c" using assms by simp
  have nneg: "\<not> s / ?c < 0" using assms c by (simp add: not_less)
  have q: "py_int (s / ?c) = \<lfloor>s\<rfloor> div k"
    by (simp only: py_int_def if_not_P [OF nneg] floor_divide_int [OF assms(2)])
  have m: "c_fmod s ?c = s - of_int (k * (\<lfloor>s\<rfloor> div k))"
    by (simp add: c_fmod_def q)
  have "of_int (\<lfloor>s\<rfloor> div k) \<le> s / ?c"
    using floor_divide_int [OF assms(2), of s] by (metis of_int_floor_le)
  then have "?c * of_int (\<lfloor>s\<rfloor> div k) \<le> s"
    using c by (simp add: pos_le_divide_eq mult.commute)
  then have nn: "0 \<le> c_fmod s ?c" unfolding m by simp
  show 1: "py_mod s ?c = s - of_int (k * (\<lfloor>s\<rfloor> div k))"
    using nn c m by (simp add: py_mod_def Let_def not_less)
  show "0 \<le> py_mod s ?c" using nn 1 m by simp
  have "\<lfloor>s - of_int (k * (\<lfloor>s\<rfloor> div k))\<rfloor> = \<lfloor>s\<rfloor> - k * (\<lfloor>s\<rfloor> div k)"
    by (simp only: floor_diff_of_int)
  also have "\<dots> = \<lfloor>s\<rfloor> mod k" by (simp add: minus_mult_div_eq_mod)
  finally show "\<lfloor>py_mod s ?c\<rfloor> = \<lfloor>s\<rfloor> mod k" unfolding 1 .
qed

lemma py_floordiv_exact:
  assumes "0 \<le> s" "0 < k" "k * (\<lfloor>s\<rfloor> div k) < 2 ^ 53"
  shows "py_floordiv s (of_int k) = of_int (\<lfloor>s\<rfloor> div k)"
proof -
  let ?c = "of_int k :: rat" and ?q = "\<lfloor>s\<rfloor> div k"
  have c: "0 < ?c" using assms by simp
  have q0: "0 \<le> ?q" using assms by (simp add: pos_imp_zdiv_nonneg_iff)
  have qk: "?q \<le> k * ?q" using q0 assms(2) by (simp add: mult_le_cancel_right1)
  have nneg: "\<not> s / ?c < 0" using assms c by (simp add: not_less)
  have py: "py_int (s / ?c) = ?q"
    by (simp only: py_int_def if_not_P [OF nneg] floor_divide_int [OF assms(2)])
  have m: "c_fmod s ?c = s - of_int (k * ?q)" by (simp add: c_fmod_def py)
  have "of_int ?q \<le> s / ?c"
    using floor_divide_int [OF assms(2), of s] by (metis of_int_floor_le)
  then have "?c * of_int ?q \<le> s" using c by (simp add: pos_le_divide_eq mult.commute)
  then have nn: "0 \<le> c_fmod s ?c" unfolding m by simp
  have "s - c_fmod s ?c = of_int (k * ?q)" unfolding m by simp
  then have r1: "round64 (s - c_fmod s ?c) = of_int (k * ?q)"
    using round64_int [of "k * ?q"] q0 assms by (simp add: mult_nonneg_nonneg)
  have "of_int (k * ?q) / ?c = (of_int ?q :: rat)" using c by simp
  then have r2: "round64 (round64 (s - c_fmod s ?c) / ?c) = of_int ?q"
    unfolding r1 using round64_int [of ?q] q0 qk assms(3) by simp
  show ?thesis
    using nn c r2 by (simp add: py_floordiv_def Let_def not_less)
qed

lemma py_float_small: "0 \<le> n \<Longrightarrow> n < 2 ^ 53 \<Longrightarrow> py_float n = of_int n"
  by (simp add: py_float_def round64_int)

lemma py_int_of_nonneg: "0 \<le> x \<Longrightarrow> py_int x = \<lfloor>x\<rfloor>"
  by (simp add: py_int_def not_less)

lemma div_mod_sixty: "(n::int) mod 3600 div 60 = n div 60 mod 60"
proof -
  have "n mod (60 * 60) = 60 * (n div 60 mod 60) + n mod 60"
    by (rule zmod_zmult2_eq) simp
  then show ?thesis by simp
qed

lemma time_fields_exact:
  assumes pf: "python_floats l" and s: "0 \<le> s"
  shows "time_fields l s =
           (py_int (py_floordiv s 3600), \<lfloor>s\<rfloor> div 60 mod 60, \<lfloor>s\<rfloor> mod 60,
            \<lfloor>round64 ((s - of_int \<lfloor>s\<rfloor>) * 1000)\<rfloor>)"
proof -
  have c: "py_float 3600 = 3600" "py_float 60 = 60" "py_float 1 = 1" "py_float 1000 = 1000"
    using py_float_small [of 3600] py_float_small [of 60] py_float_small [of 1]
      py_float_small [of 1000] by simp_all
  let ?r = "py_mod s 3600"
  have r: "0 \<le> ?r" "\<lfloor>?r\<rfloor> = \<lfloor>s\<rfloor> mod 3600"
    using py_mod_exact [OF s, of 3600] by simp_all
  have "60 * (\<lfloor>?r\<rfloor> div 60) \<le> \<lfloor>?r\<rfloor>" using r(1) by simp
  also have "\<dots> < 3600" unfolding r(2) by simp
  finally have "60 * (\<lfloor>?r\<rfloor> div 60) < 2 ^ 53" by simp
  then have "py_floordiv ?r 60 = of_int (\<lfloor>?r\<rfloor> div 60)"
    using py_floordiv_exact [OF r(1), of 60] by simp
  then have mi: "py_int (py_floordiv ?r 60) = \<lfloor>s\<rfloor> div 60 mod 60"
    unfolding r(2) by (simp add: py_int_def div_mod_sixty pos_imp_zdiv_neg_iff)
  have se: "py_int (py_mod s 60) = \<lfloor>s\<rfloor> mod 60"
    using py_mod_exact [OF s, of 60] by (simp add: py_int_of_nonneg)
  have fr: "py_mod s 1 = s - of_int \<lfloor>s\<rfloor>"
    using py_mod_exact(1) [OF s, of 1] by simp
  have "0 \<le> (s - of_int \<lfloor>s\<rfloor>) * 1000" by simp
  then have ms: "py_int (py_mul (py_mod s 1) 1000) = \<lfloor>round64 ((s - of_int \<lfloor>s\<rfloor>) * 1000)\<rfloor>"
    unfolding fr py_mul_def by (intro py_int_of_nonneg round64_nonneg)
  show ?thesis
    using pf mi se ms by (simp add: time_fields_def python_floats_def c)
qed

lemma hours_exact:
  assumes "0 \<le> s" "s < 2 ^ 53"
  shows "py_int (py_floordiv s 3600) = \<lfloor>s\<rfloor> div 3600"
proof -
  have lt: "\<lfloor>s\<rfloor> < 2 ^ 53" using assms(2) by (simp add: floor_less_iff)
  have "0 \<le> \<lfloor>s\<rfloor>" using assms(1) by simp
  then have "3600 * (\<lfloor>s\<rfloor> div 3600) \<le> \<lfloor>s\<rfloor>" by simp
  with lt have "3600 * (\<lfloor>s\<rfloor> div 3600) < 2 ^ 53" by linarith
  then have "py_floordiv s 3600 = of_int (\<lfloor>s\<rfloor> div 3600)"
    using py_floordiv_exact [OF assms(1), of 3600] by simp
  then show ?thesis using assms(1) by (simp add: py_int_def pos_imp_zdiv_neg_iff)
qed

lemma two_powi_small: "(2::rat) powi (- 1022) \<le> 1 / 2"
  using two_powi_mono [of "- 1022" "- 1"] by (simp add: power_int_minus)

lemma nines_stay:
  assumes X: "X < 2 ^ 32"
  defines "s \<equiv> round64 (of_nat X + 9996 / 10000)"
  shows "\<lfloor>s\<rfloor> = int X" and "\<lfloor>round64 ((s - of_int \<lfloor>s\<rfloor>) * 1000)\<rfloor> = 999"
    and "0 \<le> s" and "s < 2 ^ 53"
proof -
  let ?y = "of_nat X + 9996 / 10000 :: rat"
  have y0: "1 / 2 \<le> ?y" by simp
  have "(of_nat X :: rat) < of_nat (2 ^ 32)" using X by (simp only: of_nat_less_iff)
  then have y1: "?y < 2 ^ 32 + 1" by simp
  have "\<bar>s - ?y\<bar> \<le> ?y / 2 ^ 53"
    unfolding s_def using y0 two_powi_small by (intro round64_error) linarith
  also have "\<dots> < (2 ^ 32 + 1) / 2 ^ 53" using y1 by (simp add: divide_strict_right_mono)
  also have "\<dots> < 1 / 10000" by simp
  finally have e: "\<bar>s - ?y\<bar> < 1 / 10000" .
  then have b: "of_nat X + 9995 / 10000 < s" "s < of_nat X + 9997 / 10000" by linarith+
  show f: "\<lfloor>s\<rfloor> = int X"
    using b by (intro floor_unique) simp_all
  show "0 \<le> s" using b(1) by (simp add: order_trans [OF _ less_imp_le])
  have "s < 2 ^ 32 + 2" using b(2) y1 by linarith
  also have "(2 ^ 32 + 2 :: rat) < 2 ^ 53" by simp
  finally show "s < 2 ^ 53" .
  let ?p = "(s - of_int \<lfloor>s\<rfloor>) * 1000"
  have p: "9995 / 10 < ?p" "?p < 9997 / 10" using b unfolding f by simp_all
  have "\<bar>round64 ?p - ?p\<bar> \<le> ?p / 2 ^ 53"
    using p(1) two_powi_small by (intro round64_error) linarith
  also have "\<dots> < (9997 / 10) / 2 ^ 53" using p(2) by (simp add: divide_strict_right_mono)
  also have "\<dots> < 1 / 10" by simp
  finally have "\<bar>round64 ?p - ?p\<bar> < 1 / 10" .
  with p have "999 \<le> round64 ?p" "round64 ?p < 999 + 1" by linarith+
  then show "\<lfloor>round64 ?p\<rfloor> = 999" by (intro floor_unique) simp_all
qed

lemma python_floats_binary64: "python_floats binary64_lib"
  by (simp add: python_floats_def binary64_lib_def)

lemma python_floats_times:
  assumes "python_floats l"
  shows "seconds_to_srt_time l s = seconds_to_srt_time binary64_lib s"
    and "seconds_to_vtt_time l s = seconds_to_vtt_time binary64_lib s"
  using assms
  by (simp_all add: python_floats_def binary64_lib_def seconds_to_srt_time_def
        seconds_to_vtt_time_def)

text \<open>
  C3. With Python's float operations, for every finite float \<open>s\<close> that is not negative:
  the minutes are \<open>\<lfloor>s\<rfloor> div 60 mod 60\<close>, the seconds \<open>\<lfloor>s\<rfloor> mod 60\<close>, the hours
  \<open>\<lfloor>s\<rfloor> div 3600\<close> (below \<open>2^53\<close>; above, what \<open>//\<close> returns), and the
  milliseconds are the float product of the fractional part and 1000, truncated: no
  field is rounded to the nearest and none carries into the next. So for every whole
  number of seconds \<open>X\<close> below \<open>2^32\<close>, the float \<open>X.9996\<close> has the seconds of \<open>X\<close> and
  999 milliseconds, and \<open>3599.9999\<close> is printed as \<open>00:59:59,999\<close> (\<open>00:59:59.999\<close> for
  \<open>vtt\<close>). With fields in range, the two strings are the fields in the pattern
  \<open>HH:MM:SS,mmm\<close>. The product is a float product: the float \<open>0.29\<close> is below
  \<open>29/100\<close> and yet has 290 milliseconds.
\<close>

theorem timestamps_truncate:
  assumes pf: "python_floats l"
  shows "(0 \<le> s \<longrightarrow>
            time_fields l s =
              (py_int (py_floordiv s 3600), \<lfloor>s\<rfloor> div 60 mod 60, \<lfloor>s\<rfloor> mod 60,
               \<lfloor>round64 ((s - of_int \<lfloor>s\<rfloor>) * 1000)\<rfloor>))
         \<and> (0 \<le> s \<and> s < 2 ^ 53 \<longrightarrow> py_int (py_floordiv s 3600) = \<lfloor>s\<rfloor> div 3600)
         \<and> (X < 2 ^ 32 \<longrightarrow>
            time_fields l (round64 (of_nat X + 9996 / 10000)) =
              (int X div 3600, int X div 60 mod 60, int X mod 60, 999))
         \<and> seconds_to_srt_time l (round64 (35999999 / 10000)) = ''00:59:59,999''
         \<and> seconds_to_vtt_time l (round64 (35999999 / 10000)) = ''00:59:59.999''
         \<and> (fields_in_range (time_fields l s) \<longrightarrow>
            seconds_to_srt_time l s = clock_pattern CHR '','' (time_fields l s)
            \<and> seconds_to_vtt_time l s = clock_pattern CHR ''.'' (time_fields l s))"
proof (intro conjI impI)
  assume "0 \<le> s"
  then show "time_fields l s =
              (py_int (py_floordiv s 3600), \<lfloor>s\<rfloor> div 60 mod 60, \<lfloor>s\<rfloor> mod 60,
               \<lfloor>round64 ((s - of_int \<lfloor>s\<rfloor>) * 1000)\<rfloor>)"
    by (rule time_fields_exact [OF pf])
next
  assume "0 \<le> s \<and> s < 2 ^ 53"
  then show "py_int (py_floordiv s 3600) = \<lfloor>s\<rfloor> div 3600"
    using hours_exact [of s] by simp
next
  assume X: "X < 2 ^ 32"
  note n = nines_stay [OF X]
  show "time_fields l (round64 (of_nat X + 9996 / 10000)) =
          (int X div 3600, int X div 60 mod 60, int X mod 60, 999)"
    using time_fields_exact [OF pf n(3)] hours_exact [OF n(3) n(4)] n(1) n(2) by simp
next
  have "seconds_to_srt_time binary64_lib (round64 (35999999 / 10000)) = ''00:59:59,999''"
    by code_simp
  then show "seconds_to_srt_time l (round64 (35999999 / 10000)) = ''00:59:59,999''"
    by (simp only: python_floats_times [OF pf])
next
  have "seconds_to_vtt_time binary64_lib (round64 (35999999 / 10000)) = ''00:59:59.999''"
    by code_simp
  then show "seconds_to_vtt_time l (round64 (35999999 / 10000)) = ''00:59:59.999''"
    by (simp only: python_floats_times [OF pf])
next
  assume "fields_in_range (time_fields l s)"
  then show "seconds_to_srt_time l s = clock_pattern CHR '','' (time_fields l s)"
    by (rule time_patterns)
next
  assume "fields_in_range (time_fields l s)"
  then show "seconds_to_vtt_time l s = clock_pattern CHR ''.'' (time_fields l s)"
    by (rule time_patterns)
qed

theorem timestamps_truncate_witness:
  "python_floats binary64_lib
   \<and> (0::rat) \<le> round64 (29 / 100) \<and> round64 (29 / 100) < 2 ^ 53
   \<and> time_fields binary64_lib (round64 (29 / 100)) = (0, 0, 0, 290)
   \<and> fields_in_range (time_fields binary64_lib (round64 (29 / 100)))
   \<and> seconds_to_srt_time binary64_lib (round64 (29 / 100)) = ''00:00:00,290''
   \<and> seconds_to_vtt_time binary64_lib (round64 (29 / 100)) = ''00:00:00.290''
   \<and> (12::nat) < 2 ^ 32
   \<and> time_fields binary64_lib (round64 (of_nat 12 + 9996 / 10000)) = (0, 0, 12, 999)
   \<and> seconds_to_srt_time binary64_lib (round64 (35999999 / 10000)) = ''00:59:59,999''
   \<and> seconds_to_vtt_time binary64_lib (round64 (35999999 / 10000)) = ''00:59:59.999''"
proof -
  have 1: "(0::rat) \<le> round64 (29 / 100)" by code_simp
  have 2: "round64 (29 / 100) < 2 ^ 53" by code_simp
  have 3: "(12::nat) < 2 ^ 32" by simp
  have 4: "\<lfloor>round64 ((round64 (29 / 100) - of_int \<lfloor>round64 (29 / 100)\<rfloor>) * 1000)\<rfloor> = 290"
    by code_simp
  have 5: "\<lfloor>round64 (29 / 100)\<rfloor> = 0" by code_simp
  have 6: "fields_in_range (0, 0, 0, 290)" by code_simp
  have 7: "clock_pattern CHR '','' (0, 0, 0, 290) = ''00:00:00,290''" by code_simp
  have 8: "clock_pattern CHR ''.'' (0, 0, 0, 290) = ''00:00:00.290''" by code_simp
  note t = timestamps_truncate [OF python_floats_binary64, of "round64 (29 / 100)" 12]
  have f: "time_fields binary64_lib (round64 (29 / 100)) = (0, 0, 0, 290)"
    using t 1 2 4 5 by simp
  show ?thesis
    using t python_floats_binary64 1 2 3 6 7 8 unfolding f by simp
qed

end
